theory Spec2Isabelle
  imports Complex_Main "HOL-Library.Sublist" "HOL-Library.AList"
begin

section \<open>Strings and characters\<close>

text \<open>
  JavaScript strings are modelled as \<^typ>\<open>string\<close>: one \<^typ>\<open>char\<close> per code unit, for
  the code units below 256. The class \<open>\s\<close> of regular expressions then holds tab, line
  feed, vertical tab, form feed, carriage return, space and the no-break space.
\<close>

definition isWhitespace :: "char \<Rightarrow> bool" where
  "isWhitespace c = (c \<in> set [CHR 0x09, CHR 0x0A, CHR 0x0B, CHR 0x0C, CHR 0x0D, CHR 0x20, CHR 0xA0])"

definition isIllegalChar :: "char \<Rightarrow> bool" where
  "isIllegalChar c = (c \<in> set [CHR ''<'', CHR ''>'', CHR '':'', CHR 0x22, CHR ''/'', CHR 0x5C,
                               CHR ''|'', CHR ''?'', CHR ''*''])"

function collapseWhitespace :: "string \<Rightarrow> string" where
  "collapseWhitespace [] = []"
| "collapseWhitespace (c # cs) =
     (if isWhitespace c then CHR ''_'' # collapseWhitespace (dropWhile isWhitespace cs)
      else c # collapseWhitespace cs)"
  by pat_completeness auto
termination
  by (relation "measure length") (auto simp: le_imp_less_Suc length_dropWhile_le)

function collapseUnderscores :: "string \<Rightarrow> string" where
  "collapseUnderscores [] = []"
| "collapseUnderscores [c] = [c]"
| "collapseUnderscores (c # d # cs) =
     (if c = CHR ''_'' \<and> d = CHR ''_''
      then CHR ''_'' # collapseUnderscores (dropWhile (\<lambda>x. x = CHR ''_'') cs)
      else c # collapseUnderscores (d # cs))"
  by pat_completeness auto
termination
  by (relation "measure length") (auto simp: le_imp_less_Suc length_dropWhile_le less_Suc_eq_le le_SucI)

definition sanitizeForFilename :: "string option \<Rightarrow> string" where
  "sanitizeForFilename v =
     (case v of
        None \<Rightarrow> []
      | Some s \<Rightarrow> collapseUnderscores (collapseWhitespace (filter (\<lambda>c. \<not> isIllegalChar c) s)))"

section \<open>Template parsing\<close>

text \<open>
  \<open>TOKEN_REGEX\<close> is \<open>/\{([^}]+)\}/g\<close>: an opening brace, one or more characters other
  than a closing brace, a closing brace. The regular expression object is global and carries
  the mutable \<open>lastIndex\<close>, which \<open>exec\<close> reads and writes; it is passed explicitly.
\<close>

definition TEMPLATE_TOKENS :: "string list" where
  "TEMPLATE_TOKENS =
     [''{YYYY}'', ''{YY}'', ''{MM}'', ''{DD}'', ''{HH}'', ''{mm}'', ''{ss}'',
      ''{date}'', ''{datetime}'', ''{timestamp}'',
      ''{make}'', ''{model}'', ''{lens}'',
      ''{iso}'', ''{aperture}'', ''{shutter}'', ''{focal}'',
      ''{width}'', ''{height}'', ''{dimensions}'', ''{orientation}'',
      ''{lat}'', ''{lng}'', ''{gps}'',
      ''{counter}'', ''{counter:5}'',
      ''{original}'', ''{ext}'',
      ''{custom}'']"

definition isDigit :: "char \<Rightarrow> bool" where
  "isDigit c = (48 \<le> (of_char c :: nat) \<and> (of_char c :: nat) \<le> 57)"

record TemplateToken =
  token :: string
  fullToken :: string
  position :: nat
  isValid :: bool

definition matchTokenAt :: "string \<Rightarrow> (string \<times> nat) option" where
  "matchTokenAt s =
     (case s of
        [] \<Rightarrow> None
      | c # r \<Rightarrow>
          if c = CHR ''{'' then
            (let body = takeWhile (\<lambda>x. x \<noteq> CHR ''}'') r;
                 rest = dropWhile (\<lambda>x. x \<noteq> CHR ''}'') r
             in if body \<noteq> [] \<and> rest \<noteq> [] then Some (body, length body + 2) else None)
          else None)"

function searchToken :: "string \<Rightarrow> nat \<Rightarrow> (nat \<times> string \<times> nat) option" where
  "searchToken s i =
     (if length s \<le> i then None
      else (case matchTokenAt (drop i s) of
              Some (tok, len) \<Rightarrow> Some (i, tok, len)
            | None \<Rightarrow> searchToken s (Suc i)))"
  by pat_completeness auto
termination
  by (relation "measure (\<lambda>(s, i). length s - i)") auto

declare searchToken.simps [simp del]

definition exec :: "string \<Rightarrow> nat \<Rightarrow> (nat \<times> string \<times> nat) option \<times> nat" where
  "exec s lastIndex =
     (case searchToken s lastIndex of
        None \<Rightarrow> (None, 0)
      | Some (i, tok, len) \<Rightarrow> (Some (i, tok, len), i + len))"

definition isValidToken :: "string \<Rightarrow> bool" where
  "isValidToken tok =
     ((CHR ''{'' # tok @ ''}'') \<in> set TEMPLATE_TOKENS
      \<or> (prefix ''counter:'' tok \<and> drop 8 tok \<noteq> [] \<and> list_all isDigit (drop 8 tok)))"

lemma matchTokenAt_len: "matchTokenAt s = Some (tok, len) \<Longrightarrow> 0 < len"
  by (auto simp: matchTokenAt_def Let_def split: list.splits if_splits)

lemma searchToken_bounds:
  "searchToken s i = Some (j, tok, len) \<Longrightarrow> i \<le> j \<and> j < length s \<and> 0 < len"
proof (induction s i rule: searchToken.induct)
  case (1 s i)
  show ?case
  proof (cases "matchTokenAt (drop i s)")
    case None
    with 1 show ?thesis by (subst (asm) (2) searchToken.simps) (auto split: if_splits)
  next
    case (Some p)
    with 1(2) show ?thesis
      by (cases p) (subst (asm) searchToken.simps, auto split: if_splits dest: matchTokenAt_len)
  qed
qed

function parseLoop :: "string \<Rightarrow> nat \<Rightarrow> TemplateToken list \<Rightarrow> TemplateToken list \<times> nat" where
  "parseLoop template lastIndex tokens =
     (case exec template lastIndex of
        (None, li) \<Rightarrow> (tokens, li)
      | (Some (i, tok, len), li) \<Rightarrow>
          parseLoop template li
            (tokens @ [\<lparr>token = tok, fullToken = take len (drop i template),
                        position = i, isValid = isValidToken tok\<rparr>]))"
  by pat_completeness auto
termination
proof (relation "measure (\<lambda>(t, li, ts). length t - li)", goal_cases)
  case 1
  show ?case by simp
next
  case (2 template lastIndex tokens x y x2 xa ya xb yb)
  then have "searchToken template lastIndex = Some (xa, xb, yb)" and "y = xa + yb"
    by (auto simp: exec_def split: option.splits prod.splits)
  then show ?case
    using searchToken_bounds by fastforce
qed

declare parseLoop.simps [simp del]

definition parseTemplate :: "string \<Rightarrow> nat \<Rightarrow> TemplateToken list \<times> nat" where
  "parseTemplate template lastIndex = parseLoop template 0 []"

section \<open>Numbers, decimal strings and dates\<close>

text \<open>
  A JavaScript number is modelled by its exact value: a rational, \<open>NaN\<close> or an infinity.
  The rounding of binary floating point is not part of the model. A counter is an integer.
  \<open>String(n)\<close> is the decimal numeral for an integral value below \<open>10^21\<close>; the rendering
  of every other finite value is the parameter \<open>fracToString\<close> of the functions below.
\<close>

datatype number = Num rat | NaN | PosInfinity | NegInfinity

definition truthyNumber :: "number \<Rightarrow> bool" where
  "truthyNumber n = (n \<noteq> Num 0 \<and> n \<noteq> NaN)"

definition digitChar :: "nat \<Rightarrow> char" where
  "digitChar d = char_of (48 + d)"

fun natToString :: "nat \<Rightarrow> string" where
  "natToString n =
     (if n < 10 then [digitChar n] else natToString (n div 10) @ [digitChar (n mod 10)])"

declare natToString.simps [simp del]

definition intToString :: "int \<Rightarrow> string" where
  "intToString i = (if i < 0 then CHR ''-'' # natToString (nat (- i)) else natToString (nat i))"

definition numberToString :: "(rat \<Rightarrow> string) \<Rightarrow> number \<Rightarrow> string" where
  "numberToString fracToString n =
     (case n of
        NaN \<Rightarrow> ''NaN''
      | PosInfinity \<Rightarrow> ''Infinity''
      | NegInfinity \<Rightarrow> ''-Infinity''
      | Num q \<Rightarrow>
          if of_int \<lfloor>q\<rfloor> = q \<and> \<bar>q\<bar> < 10 ^ 21 then intToString \<lfloor>q\<rfloor> else fracToString q)"

text \<open>
  An instance of the parameter, for evaluating the functions below on concrete inputs: it
  renders the integral part only.
\<close>

definition integralPart :: "rat \<Rightarrow> string" where
  "integralPart q = intToString \<lfloor>q\<rfloor>"

definition padStart :: "string \<Rightarrow> nat \<Rightarrow> char \<Rightarrow> string" where
  "padStart s n c = replicate (n - length s) c @ s"

definition toFixed6 :: "(rat \<Rightarrow> string) \<Rightarrow> number \<Rightarrow> string" where
  "toFixed6 fracToString n =
     (case n of
        Num q \<Rightarrow>
          if 10 ^ 21 \<le> \<bar>q\<bar> then numberToString fracToString n
          else
            (let m = padStart (natToString (nat \<lfloor>\<bar>q\<bar> * 10 ^ 6 + 1 / 2\<rfloor>)) 7 (CHR ''0'')
             in (if q < 0 then ''-'' else []) @ take (length m - 6) m @ ''.'' @ drop (length m - 6) m)
      | _ \<Rightarrow> numberToString fracToString n)"

definition mathRound :: "number \<Rightarrow> number" where
  "mathRound n = (case n of Num q \<Rightarrow> Num (of_int \<lfloor>q + 1 / 2\<rfloor>) | _ \<Rightarrow> n)"

definition reciprocal :: "number \<Rightarrow> number" where
  "reciprocal n =
     (case n of
        Num q \<Rightarrow> if q = 0 then PosInfinity else Num (1 / q)
      | NaN \<Rightarrow> NaN
      | _ \<Rightarrow> Num 0)"

definition lessEqZero :: "number \<Rightarrow> bool" where
  "lessEqZero n = (case n of Num q \<Rightarrow> q \<le> 0 | NegInfinity \<Rightarrow> True | _ \<Rightarrow> False)"

definition greaterEqOne :: "number \<Rightarrow> bool" where
  "greaterEqOne n = (case n of Num q \<Rightarrow> 1 \<le> q | PosInfinity \<Rightarrow> True | _ \<Rightarrow> False)"

definition digitsValue :: "string \<Rightarrow> nat" where
  "digitsValue ds = foldl (\<lambda>acc c. 10 * acc + ((of_char c :: nat) - 48)) 0 ds"

text \<open>
  \<open>parseFloat\<close> reads the longest prefix that is a decimal literal, after leading white
  space: a sign, then \<open>Infinity\<close> or digits with an optional fraction and exponent.
\<close>

definition parseExponent :: "string \<Rightarrow> int" where
  "parseExponent r =
     (case r of
        [] \<Rightarrow> 0
      | e # r1 \<Rightarrow>
          if e = CHR ''e'' \<or> e = CHR ''E'' then
            (case r1 of
               [] \<Rightarrow> 0
             | sg # r2 \<Rightarrow>
                 if sg = CHR ''-'' \<and> takeWhile isDigit r2 \<noteq> []
                   then - int (digitsValue (takeWhile isDigit r2))
                 else if sg = CHR ''+'' \<and> takeWhile isDigit r2 \<noteq> []
                   then int (digitsValue (takeWhile isDigit r2))
                 else int (digitsValue (takeWhile isDigit r1)))
          else 0)"

definition parseFloat :: "string \<Rightarrow> number" where
  "parseFloat s =
     (let t = dropWhile isWhitespace s;
          neg = (t \<noteq> [] \<and> hd t = CHR ''-'');
          u = (if t \<noteq> [] \<and> (hd t = CHR ''-'' \<or> hd t = CHR ''+'') then tl t else t)
      in if prefix ''Infinity'' u then (if neg then NegInfinity else PosInfinity)
         else
           (let ip = takeWhile isDigit u;
                r1 = dropWhile isDigit u;
                hasDot = (r1 \<noteq> [] \<and> hd r1 = CHR ''.'');
                fp = (if hasDot then takeWhile isDigit (tl r1) else []);
                r2 = (if hasDot then dropWhile isDigit (tl r1) else r1)
            in if ip = [] \<and> fp = [] then NaN
               else
                 (let mant = (of_nat (digitsValue (ip @ fp)) :: rat) / 10 ^ length fp;
                      ex = parseExponent r2;
                      v = (if 0 \<le> ex then mant * 10 ^ nat ex else mant / 10 ^ nat (- ex))
                  in Num (if neg then - v else v))))"

text \<open>
  A \<open>Date\<close> object is the record of what its getters return (local time fields and the
  epoch milliseconds); \<open>None\<close> is the invalid date, whose getters all return \<open>NaN\<close>.
\<close>

record DateFields =
  getFullYear :: int
  getMonth :: nat
  getDate :: nat
  getHours :: nat
  getMinutes :: nat
  getSeconds :: nat
  getTime :: int

type_synonym Date = "DateFields option"

section \<open>Data model of the rename engine\<close>

text \<open>The field \<open>make\<close> of \<open>ExifData\<close> is written \<open>make'\<close>.\<close>

datatype exposure = ENum number | EStr string

record GPSData =
  lat :: number
  lng :: number
  altitude :: "number option"

record ExifData =
  make' :: "string option"
  model :: "string option"
  lensModel :: "string option"
  dateTaken :: "Date option"
  exposureTime :: "exposure option"
  fNumber :: "number option"
  iso :: "number option"
  focalLength :: "number option"
  width :: "number option"
  height :: "number option"
  orientation :: number
  gps :: "GPSData option"


text \<open>
  Every field of \<open>RenameOptions\<close> is optional; \<open>None\<close> is \<open>undefined\<close>. \<open>noOptions\<close> is
  the empty object, the default of the \<open>options\<close> parameters.
\<close>

record RenameOptions =
  counter :: "int option"
  counterPadding :: "int option"
  startCounter :: "int option"
  customText :: "string option"
  fallbackDate :: "Date option"
  preserveExtension :: "bool option"

definition noOptions :: RenameOptions where
  "noOptions =
     \<lparr>counter = None, counterPadding = None, startCounter = None, customText = None,
      fallbackDate = None, preserveExtension = None\<rparr>"

record RenameResult =
  filename :: string
  success :: bool
  warnings :: "string list option"

text \<open>
  A \<open>File\<close> object: \<open>ident\<close> stands for the identity of the object, by which
  \<open>Map<File, RenameResult>\<close> compares its keys.
\<close>

record File =
  ident :: nat
  name :: string
  lastModified :: nat

section \<open>String operations of the rename engine\<close>

fun includes' :: "string \<Rightarrow> string \<Rightarrow> bool" where
  "includes' [] tok = (tok = [])"
| "includes' (c # cs) tok = (prefix tok (c # cs) \<or> includes' cs tok)"

text \<open>
  The replacement text of \<open>String.prototype.replace\<close> is expanded at every match:
  \<open>$$\<close> is a dollar sign, \<open>$&\<close> the match, \<open>$`\<close> the text before the match and
  \<open>$'\<close> the text after it. The patterns used with a replacement string have no capture
  group, so \<open>$1\<close> and the like stay as they are.
\<close>

fun getSubstitution :: "string \<Rightarrow> string \<Rightarrow> string \<Rightarrow> string \<Rightarrow> string" where
  "getSubstitution matched pre post [] = []"
| "getSubstitution matched pre post [c] = [c]"
| "getSubstitution matched pre post (c # d # r) =
     (if c = CHR ''$'' \<and> d = CHR ''$'' then CHR ''$'' # getSubstitution matched pre post r
      else if c = CHR ''$'' \<and> d = CHR ''&'' then matched @ getSubstitution matched pre post r
      else if c = CHR ''$'' \<and> d = CHR 0x60 then pre @ getSubstitution matched pre post r
      else if c = CHR ''$'' \<and> d = CHR 0x27 then post @ getSubstitution matched pre post r
      else c # getSubstitution matched pre post (d # r))"

text \<open>
  \<open>replaceFrom\<close> is the scan of \<open>s.replace(/tok/g, repl)\<close> for a literal, non-empty
  \<open>tok\<close>: \<open>pre\<close> is the part of the subject already passed.
\<close>

function replaceFrom :: "string \<Rightarrow> string \<Rightarrow> string \<Rightarrow> string \<Rightarrow> string" where
  "replaceFrom tok repl pre [] = []"
| "replaceFrom tok repl pre (c # cs) =
     (if tok \<noteq> [] \<and> prefix tok (c # cs)
      then getSubstitution tok pre (drop (length tok) (c # cs)) repl
           @ replaceFrom tok repl (pre @ tok) (drop (length tok) (c # cs))
      else c # replaceFrom tok repl (pre @ [c]) cs)"
  by pat_completeness auto
termination
  by (relation "measure (\<lambda>(tok, repl, pre, s). length s)") auto

declare replaceFrom.simps(2) [simp del]

definition replaceAll :: "string \<Rightarrow> string \<Rightarrow> string \<Rightarrow> string" where
  "replaceAll s tok repl = replaceFrom tok repl [] s"

text \<open>\<open>filename.match(TOKEN_REGEX)\<close> and \<open>filename.replace(TOKEN_REGEX, '')\<close>.\<close>

function matchAllTokens :: "string \<Rightarrow> string list" where
  "matchAllTokens [] = []"
| "matchAllTokens (c # cs) =
     (case matchTokenAt (c # cs) of
        Some (tok, len) \<Rightarrow> take len (c # cs) # matchAllTokens (drop len (c # cs))
      | None \<Rightarrow> matchAllTokens cs)"
  by pat_completeness auto
termination
  by (relation "measure length") (auto dest: matchTokenAt_len)

function stripTokens :: "string \<Rightarrow> string" where
  "stripTokens [] = []"
| "stripTokens (c # cs) =
     (case matchTokenAt (c # cs) of
        Some (tok, len) \<Rightarrow> stripTokens (drop len (c # cs))
      | None \<Rightarrow> c # stripTokens cs)"
  by pat_completeness auto
termination
  by (relation "measure length") (auto dest: matchTokenAt_len)

fun joinWith :: "string \<Rightarrow> string list \<Rightarrow> string" where
  "joinWith sep [] = []"
| "joinWith sep [x] = x"
| "joinWith sep (x # y # xs) = x @ sep @ joinWith sep (y # xs)"

definition isWordChar :: "char \<Rightarrow> bool" where
  "isWordChar c =
     (let n = (of_char c :: nat)
      in (48 \<le> n \<and> n \<le> 57) \<or> (65 \<le> n \<and> n \<le> 90) \<or> (97 \<le> n \<and> n \<le> 122) \<or> n = 95)"

definition trim :: "string \<Rightarrow> string" where
  "trim s = rev (dropWhile isWhitespace (rev (dropWhile isWhitespace s)))"

definition sanitizeToken :: "string \<Rightarrow> string" where
  "sanitizeToken v =
     trim (collapseWhitespace
             (filter (\<lambda>c. isWordChar c \<or> isWhitespace c \<or> c = CHR ''-'') v))"

definition lastIndexOf :: "string \<Rightarrow> char \<Rightarrow> nat option" where
  "lastIndexOf s c =
     (if c \<in> set s then Some (length s - 1 - length (takeWhile (\<lambda>x. x \<noteq> c) (rev s)))
      else None)"

definition parseFilename :: "string \<Rightarrow> string \<times> string" where
  "parseFilename fname =
     (case lastIndexOf fname (CHR ''.'') of
        None \<Rightarrow> (fname, [])
      | Some lastDotIndex \<Rightarrow>
          if lastDotIndex = 0 then (fname, [])
          else (take lastDotIndex fname, drop (lastDotIndex + 1) fname))"

section \<open>The field resolver\<close>

definition replaceDateTokens :: "string \<Rightarrow> Date \<Rightarrow> string" where
  "replaceDateTokens template date =
     (let year = (case date of None \<Rightarrow> ''NaN'' | Some d \<Rightarrow> intToString (getFullYear d));
          month = padStart (case date of None \<Rightarrow> ''NaN'' | Some d \<Rightarrow> natToString (getMonth d + 1))
                    2 (CHR ''0'');
          day = padStart (case date of None \<Rightarrow> ''NaN'' | Some d \<Rightarrow> natToString (getDate d))
                  2 (CHR ''0'');
          hours = padStart (case date of None \<Rightarrow> ''NaN'' | Some d \<Rightarrow> natToString (getHours d))
                    2 (CHR ''0'');
          minutes = padStart (case date of None \<Rightarrow> ''NaN'' | Some d \<Rightarrow> natToString (getMinutes d))
                      2 (CHR ''0'');
          seconds = padStart (case date of None \<Rightarrow> ''NaN'' | Some d \<Rightarrow> natToString (getSeconds d))
                      2 (CHR ''0'');
          timestamp = (case date of None \<Rightarrow> ''NaN'' | Some d \<Rightarrow> intToString (getTime d div 1000));
          r = replaceAll template ''{YYYY}'' year;
          r = replaceAll r ''{YY}'' (drop (length year - 2) year);
          r = replaceAll r ''{MM}'' month;
          r = replaceAll r ''{DD}'' day;
          r = replaceAll r ''{HH}'' hours;
          r = replaceAll r ''{mm}'' minutes;
          r = replaceAll r ''{ss}'' seconds;
          r = replaceAll r ''{date}'' (year @ month @ day);
          r = replaceAll r ''{datetime}'' (year @ month @ day @ ''_'' @ hours @ minutes @ seconds)
      in replaceAll r ''{timestamp}'' timestamp)"

text \<open>
  Every camera, image and GPS block of the source has one shape: if the current string
  includes the token, then either the value is truthy and replaces every occurrence, or the
  warning is pushed and every occurrence is replaced by the empty string. \<open>replaceOrWarn\<close>
  is that shape; \<open>val\<close> is the replacement when the guard of the block is truthy.
\<close>

definition replaceOrWarn ::
  "string \<Rightarrow> string option \<Rightarrow> string \<Rightarrow> string \<times> string list \<Rightarrow> string \<times> string list" where
  "replaceOrWarn tok val warning st =
     (if includes' (fst st) tok then
        (case val of
           Some v \<Rightarrow> (replaceAll (fst st) tok v, snd st)
         | None \<Rightarrow> (replaceAll (fst st) tok [], snd st @ [warning]))
      else st)"

text \<open>\<open>exifData?.field\<close> as a guard: the field when the record is present and the field truthy.\<close>

definition truthyText :: "(ExifData \<Rightarrow> string option) \<Rightarrow> ExifData option \<Rightarrow> string option" where
  "truthyText field exifData =
     (case exifData of
        None \<Rightarrow> None
      | Some e \<Rightarrow> (case field e of None \<Rightarrow> None | Some v \<Rightarrow> if v = [] then None else Some v))"

definition truthyNum :: "(ExifData \<Rightarrow> number option) \<Rightarrow> ExifData option \<Rightarrow> number option" where
  "truthyNum field exifData =
     (case exifData of
        None \<Rightarrow> None
      | Some e \<Rightarrow> (case field e of None \<Rightarrow> None | Some n \<Rightarrow> if truthyNumber n then Some n else None))"

definition truthyExposure :: "exposure \<Rightarrow> bool" where
  "truthyExposure v = (case v of ENum n \<Rightarrow> truthyNumber n | EStr s \<Rightarrow> s \<noteq> [])"

definition formatShutterSpeed :: "(rat \<Rightarrow> string) \<Rightarrow> exposure option \<Rightarrow> string" where
  "formatShutterSpeed fracToString speed =
     (case speed of
        None \<Rightarrow> []
      | Some v \<Rightarrow>
          if \<not> truthyExposure v then []
          else
            (let numSpeed = (case v of ENum n \<Rightarrow> n | EStr s \<Rightarrow> parseFloat s)
             in if numSpeed = NaN \<or> lessEqZero numSpeed then []
                else if greaterEqOne numSpeed then numberToString fracToString numSpeed @ ''s''
                else ''1/'' @ numberToString fracToString (mathRound (reciprocal numSpeed)) @ ''s''))"

definition shutterValue :: "(rat \<Rightarrow> string) \<Rightarrow> ExifData option \<Rightarrow> string option" where
  "shutterValue fracToString exifData =
     (case exifData of
        None \<Rightarrow> None
      | Some e \<Rightarrow>
          (case exposureTime e of
             None \<Rightarrow> None
           | Some v \<Rightarrow>
               if truthyExposure v then
                 Some (formatShutterSpeed fracToString
                         (Some (ENum (case v of
                                        ENum n \<Rightarrow> n
                                      | EStr s \<Rightarrow>
                                          if truthyNumber (parseFloat s) then parseFloat s else Num 0))))
               else None))"

text \<open>The seven blocks of \<open>replaceCameraTokens\<close>, in the order of the source.\<close>

definition replaceMake :: "ExifData option \<Rightarrow> string \<times> string list \<Rightarrow> string \<times> string list" where
  "replaceMake exifData st =
     replaceOrWarn ''{make}'' (map_option sanitizeToken (truthyText make' exifData))
       ''Camera make not available in EXIF data'' st"

definition replaceModel :: "ExifData option \<Rightarrow> string \<times> string list \<Rightarrow> string \<times> string list" where
  "replaceModel exifData st =
     replaceOrWarn ''{model}'' (map_option sanitizeToken (truthyText model exifData))
       ''Camera model not available in EXIF data'' st"

definition replaceLens :: "ExifData option \<Rightarrow> string \<times> string list \<Rightarrow> string \<times> string list" where
  "replaceLens exifData st =
     replaceOrWarn ''{lens}'' (map_option sanitizeToken (truthyText lensModel exifData))
       ''Lens model not available in EXIF data'' st"

definition replaceIso ::
  "(rat \<Rightarrow> string) \<Rightarrow> ExifData option \<Rightarrow> string \<times> string list \<Rightarrow> string \<times> string list" where
  "replaceIso fracToString exifData st =
     replaceOrWarn ''{iso}''
       (map_option (\<lambda>n. ''ISO'' @ numberToString fracToString n) (truthyNum iso exifData))
       ''ISO not available in EXIF data'' st"

definition replaceAperture ::
  "(rat \<Rightarrow> string) \<Rightarrow> ExifData option \<Rightarrow> string \<times> string list \<Rightarrow> string \<times> string list" where
  "replaceAperture fracToString exifData st =
     replaceOrWarn ''{aperture}''
       (map_option (\<lambda>n. ''f'' @ numberToString fracToString n) (truthyNum fNumber exifData))
       ''Aperture not available in EXIF data'' st"

definition replaceShutter ::
  "(rat \<Rightarrow> string) \<Rightarrow> ExifData option \<Rightarrow> string \<times> string list \<Rightarrow> string \<times> string list" where
  "replaceShutter fracToString exifData st =
     replaceOrWarn ''{shutter}'' (shutterValue fracToString exifData)
       ''Shutter speed not available in EXIF data'' st"

definition replaceFocal ::
  "(rat \<Rightarrow> string) \<Rightarrow> ExifData option \<Rightarrow> string \<times> string list \<Rightarrow> string \<times> string list" where
  "replaceFocal fracToString exifData st =
     replaceOrWarn ''{focal}''
       (map_option (\<lambda>n. numberToString fracToString n @ ''mm'') (truthyNum focalLength exifData))
       ''Focal length not available in EXIF data'' st"

definition replaceCameraTokens ::
  "(rat \<Rightarrow> string) \<Rightarrow> string \<Rightarrow> ExifData option \<Rightarrow> string list \<Rightarrow> string \<times> string list" where
  "replaceCameraTokens fracToString template exifData ws =
     (let st = (template, ws);
          st = replaceMake exifData st;
          st = replaceModel exifData st;
          st = replaceLens exifData st;
          st = replaceIso fracToString exifData st;
          st = replaceAperture fracToString exifData st;
          st = replaceShutter fracToString exifData st
      in replaceFocal fracToString exifData st)"

definition dimensionsValue :: "(rat \<Rightarrow> string) \<Rightarrow> ExifData option \<Rightarrow> string option" where
  "dimensionsValue fracToString exifData =
     (case truthyNum width exifData of
        None \<Rightarrow> None
      | Some w \<Rightarrow>
          (case truthyNum height exifData of
             None \<Rightarrow> None
           | Some h \<Rightarrow> Some (numberToString fracToString w @ ''x'' @ numberToString fracToString h)))"

definition orientationValue :: "(rat \<Rightarrow> string) \<Rightarrow> ExifData option \<Rightarrow> string" where
  "orientationValue fracToString exifData =
     (case exifData of
        None \<Rightarrow> ''1''
      | Some e \<Rightarrow>
          if truthyNumber (orientation e) then numberToString fracToString (orientation e)
          else ''1'')"

text \<open>The four blocks of \<open>replaceImageTokens\<close>; the last one pushes no warning.\<close>

definition replaceWidth ::
  "(rat \<Rightarrow> string) \<Rightarrow> ExifData option \<Rightarrow> string \<times> string list \<Rightarrow> string \<times> string list" where
  "replaceWidth fracToString exifData st =
     replaceOrWarn ''{width}'' (map_option (numberToString fracToString) (truthyNum width exifData))
       ''Image width not available'' st"

definition replaceHeight ::
  "(rat \<Rightarrow> string) \<Rightarrow> ExifData option \<Rightarrow> string \<times> string list \<Rightarrow> string \<times> string list" where
  "replaceHeight fracToString exifData st =
     replaceOrWarn ''{height}'' (map_option (numberToString fracToString) (truthyNum height exifData))
       ''Image height not available'' st"

definition replaceDimensions ::
  "(rat \<Rightarrow> string) \<Rightarrow> ExifData option \<Rightarrow> string \<times> string list \<Rightarrow> string \<times> string list" where
  "replaceDimensions fracToString exifData st =
     replaceOrWarn ''{dimensions}'' (dimensionsValue fracToString exifData)
       ''Image dimensions not available'' st"

definition replaceOrientation ::
  "(rat \<Rightarrow> string) \<Rightarrow> ExifData option \<Rightarrow> string \<times> string list \<Rightarrow> string \<times> string list" where
  "replaceOrientation fracToString exifData st =
     (if includes' (fst st) ''{orientation}''
      then (replaceAll (fst st) ''{orientation}'' (orientationValue fracToString exifData), snd st)
      else st)"

definition replaceImageTokens ::
  "(rat \<Rightarrow> string) \<Rightarrow> string \<Rightarrow> ExifData option \<Rightarrow> string list \<Rightarrow> string \<times> string list" where
  "replaceImageTokens fracToString template exifData ws =
     (let st = (template, ws);
          st = replaceWidth fracToString exifData st;
          st = replaceHeight fracToString exifData st;
          st = replaceDimensions fracToString exifData st
      in replaceOrientation fracToString exifData st)"

text \<open>\<open>exifData?.gps?.lat\<close> and \<open>exifData?.gps?.lng\<close> as guards.\<close>

definition truthyGps :: "(GPSData \<Rightarrow> number) \<Rightarrow> ExifData option \<Rightarrow> number option" where
  "truthyGps coord exifData =
     (case exifData of
        None \<Rightarrow> None
      | Some e \<Rightarrow>
          (case gps e of
             None \<Rightarrow> None
           | Some g \<Rightarrow> if truthyNumber (coord g) then Some (coord g) else None))"

definition gpsValue :: "(rat \<Rightarrow> string) \<Rightarrow> ExifData option \<Rightarrow> string option" where
  "gpsValue fracToString exifData =
     (case truthyGps lat exifData of
        None \<Rightarrow> None
      | Some la \<Rightarrow>
          (case truthyGps lng exifData of
             None \<Rightarrow> None
           | Some lo \<Rightarrow> Some (toFixed6 fracToString la @ ''_'' @ toFixed6 fracToString lo)))"

definition replaceLat ::
  "(rat \<Rightarrow> string) \<Rightarrow> ExifData option \<Rightarrow> string \<times> string list \<Rightarrow> string \<times> string list" where
  "replaceLat fracToString exifData st =
     replaceOrWarn ''{lat}'' (map_option (toFixed6 fracToString) (truthyGps lat exifData))
       ''GPS latitude not available'' st"

definition replaceLng ::
  "(rat \<Rightarrow> string) \<Rightarrow> ExifData option \<Rightarrow> string \<times> string list \<Rightarrow> string \<times> string list" where
  "replaceLng fracToString exifData st =
     replaceOrWarn ''{lng}'' (map_option (toFixed6 fracToString) (truthyGps lng exifData))
       ''GPS longitude not available'' st"

definition replaceGps ::
  "(rat \<Rightarrow> string) \<Rightarrow> ExifData option \<Rightarrow> string \<times> string list \<Rightarrow> string \<times> string list" where
  "replaceGps fracToString exifData st =
     replaceOrWarn ''{gps}'' (gpsValue fracToString exifData)
       ''GPS coordinates not available'' st"

definition replaceGPSTokens ::
  "(rat \<Rightarrow> string) \<Rightarrow> string \<Rightarrow> ExifData option \<Rightarrow> string list \<Rightarrow> string \<times> string list" where
  "replaceGPSTokens fracToString template exifData ws =
     (let st = (template, ws);
          st = replaceLat fracToString exifData st;
          st = replaceLng fracToString exifData st
      in replaceGps fracToString exifData st)"

definition matchCounterAt :: "string \<Rightarrow> (string \<times> nat) option" where
  "matchCounterAt s =
     (if prefix ''{counter:'' s then
        (let ds = takeWhile isDigit (drop 9 s);
             r = dropWhile isDigit (drop 9 s)
         in if ds \<noteq> [] \<and> r \<noteq> [] \<and> hd r = CHR ''}'' then Some (ds, length ds + 10) else None)
      else None)"

lemma matchCounterAt_len: "matchCounterAt s = Some (ds, len) \<Longrightarrow> 0 < len"
  by (auto simp: matchCounterAt_def Let_def split: if_splits)

text \<open>\<open>result.replace(/\{counter:(\d+)\}/g, ...)\<close>, whose replacement is a function.\<close>

function replaceCounterPadded :: "int \<Rightarrow> string \<Rightarrow> string" where
  "replaceCounterPadded cnt [] = []"
| "replaceCounterPadded cnt (c # cs) =
     (case matchCounterAt (c # cs) of
        Some (padding, len) \<Rightarrow>
          padStart (intToString cnt) (digitsValue padding) (CHR ''0'')
          @ replaceCounterPadded cnt (drop len (c # cs))
      | None \<Rightarrow> c # replaceCounterPadded cnt cs)"
  by pat_completeness auto
termination
  by (relation "measure (\<lambda>(cnt, s). length s)") (auto dest: matchCounterAt_len)

definition replaceCounterTokens :: "string \<Rightarrow> int \<Rightarrow> int \<Rightarrow> string" where
  "replaceCounterTokens template cnt defaultPadding =
     replaceAll (replaceCounterPadded cnt template) ''{counter}''
       (padStart (intToString cnt) (nat defaultPadding) (CHR ''0''))"

text \<open>
  \<open>now\<close> is what \<open>new Date()\<close> returns when the call is made; it is the default of
  \<open>fallbackDate\<close>.
\<close>

definition generateFilename ::
  "(rat \<Rightarrow> string) \<Rightarrow> Date \<Rightarrow> string \<Rightarrow> ExifData option \<Rightarrow> string \<Rightarrow> RenameOptions
     \<Rightarrow> RenameResult" where
  "generateFilename fracToString now template exifData originalFilename options =
     (let cnt = (case counter options of None \<Rightarrow> 1 | Some c \<Rightarrow> c);
          padding = (case counterPadding options of None \<Rightarrow> 3 | Some p \<Rightarrow> p);
          custom = (case customText options of None \<Rightarrow> [] | Some t \<Rightarrow> t);
          fallback = (case fallbackDate options of None \<Rightarrow> now | Some d \<Rightarrow> d);
          preserve = (case preserveExtension options of None \<Rightarrow> True | Some b \<Rightarrow> b);
          originalName = fst (parseFilename originalFilename);
          originalExt = snd (parseFilename originalFilename);
          date = (case exifData of
                    None \<Rightarrow> fallback
                  | Some e \<Rightarrow> (case dateTaken e of None \<Rightarrow> fallback | Some d \<Rightarrow> d));
          st = replaceCameraTokens fracToString (replaceDateTokens template date) exifData [];
          st = replaceImageTokens fracToString (fst st) exifData (snd st);
          st = replaceGPSTokens fracToString (fst st) exifData (snd st);
          fname = replaceCounterTokens (fst st) cnt padding;
          fname = replaceAll fname ''{original}'' originalName;
          fname = replaceAll fname ''{ext}'' originalExt;
          fname = replaceAll fname ''{custom}'' custom;
          unresolvedTokens = matchAllTokens fname;
          ws = (if unresolvedTokens \<noteq> []
                then snd st @ [''Unresolved tokens: '' @ joinWith '', '' unresolvedTokens]
                else snd st);
          fname = (if unresolvedTokens \<noteq> [] then stripTokens fname else fname);
          fname = sanitizeForFilename (Some fname);
          fname = (if preserve \<and> originalExt \<noteq> [] then fname @ ''.'' @ originalExt else fname)
      in \<lparr>filename = fname, success = True, warnings = (if ws \<noteq> [] then Some ws else None)\<rparr>)"

section \<open>The batch orchestrator\<close>

text \<open>
  The candidate that the loop of \<open>resolveFilenameConflict\<close> builds from the counter.
\<close>

definition conflictCandidate :: "string \<Rightarrow> string \<Rightarrow> nat \<Rightarrow> string" where
  "conflictCandidate nm ext cnt =
     (let suffix = CHR ''_'' # natToString cnt
      in if ext \<noteq> [] then nm @ suffix @ ''.'' @ ext else nm @ suffix)"

lemma natToString_nonempty: "natToString n \<noteq> []"
  by (subst natToString.simps) simp

lemma digitChar_code: "a < 10 \<Longrightarrow> (of_char (digitChar a) :: nat) = 48 + a"
  by (simp add: digitChar_def)

lemma digitChar_inj: "a < 10 \<Longrightarrow> b < 10 \<Longrightarrow> digitChar a = digitChar b \<Longrightarrow> a = b"
proof -
  assume a: "a < 10" and b: "b < 10" and e: "digitChar a = digitChar b"
  have "48 + a = (of_char (digitChar a) :: nat)" using a by (rule digitChar_code[symmetric])
  also have "\<dots> = of_char (digitChar b)" by (rule arg_cong[OF e])
  also have "\<dots> = 48 + b" using b by (rule digitChar_code)
  finally show "a = b" by (rule add_left_imp_eq)
qed

lemma natToString_inj: "natToString m = natToString n \<Longrightarrow> m = n"
proof (induction m arbitrary: n rule: natToString.induct)
  case (1 m)
  show ?case
  proof (cases "m < 10")
    case True
    note m = this
    show ?thesis
    proof (cases "n < 10")
      case True
      with m "1.prems" show ?thesis
        by (subst (asm) natToString.simps, subst (asm) (2) natToString.simps)
           (simp add: digitChar_inj)
    next
      case False
      have "natToString n = natToString (n div 10) @ [digitChar (n mod 10)]"
        using False by (subst natToString.simps) simp
      moreover have "natToString m = [digitChar m]" using m by (subst natToString.simps) simp
      ultimately show ?thesis using "1.prems" natToString_nonempty[of "n div 10"] by simp
    qed
  next
    case False
    note m = this
    have em: "natToString m = natToString (m div 10) @ [digitChar (m mod 10)]"
      using m by (subst natToString.simps) simp
    show ?thesis
    proof (cases "n < 10")
      case True
      then have "natToString n = [digitChar n]" by (subst natToString.simps) simp
      with em "1.prems" natToString_nonempty[of "m div 10"] show ?thesis by simp
    next
      case False
      then have en: "natToString n = natToString (n div 10) @ [digitChar (n mod 10)]"
        by (subst natToString.simps) simp
      from em en "1.prems" have a: "natToString (m div 10) = natToString (n div 10)"
        and b: "digitChar (m mod 10) = digitChar (n mod 10)" by simp_all
      from "1.IH"[OF m a] have "m div 10 = n div 10" .
      moreover from b have "m mod 10 = n mod 10" by (intro digitChar_inj) simp_all
      ultimately show ?thesis by (metis div_mult_mod_eq)
    qed
  qed
qed

lemma conflictCandidate_inj: "conflictCandidate nm ext a = conflictCandidate nm ext b \<Longrightarrow> a = b"
  by (auto simp: conflictCandidate_def Let_def natToString_inj split: if_splits)

lemma conflict_finite: "finite {k. conflictCandidate nm ext k \<in> set used}"
proof -
  have "inj (conflictCandidate nm ext)" by (rule injI) (rule conflictCandidate_inj)
  then have "finite (conflictCandidate nm ext -` set used)" by (intro finite_vimageI) simp_all
  then show ?thesis by (simp add: vimage_def)
qed

text \<open>The \<open>do ... while\<close> loop; \<open>usedFilenames\<close> is the set, in insertion order.\<close>

function conflictLoop :: "string \<Rightarrow> string \<Rightarrow> string list \<Rightarrow> nat \<Rightarrow> string" where
  "conflictLoop nm ext usedFilenames cnt =
     (if conflictCandidate nm ext cnt \<in> set usedFilenames
      then conflictLoop nm ext usedFilenames (cnt + 1)
      else conflictCandidate nm ext cnt)"
  by pat_completeness auto
termination
proof (relation "measure (\<lambda>(nm, ext, used, cnt).
         card {k. cnt \<le> k \<and> conflictCandidate nm ext k \<in> set used})", goal_cases)
  case 1
  show ?case by simp
next
  case (2 nm ext used cnt)
  have fin: "finite {k. cnt \<le> k \<and> conflictCandidate nm ext k \<in> set used}"
    by (rule finite_subset[OF _ conflict_finite[of nm ext used]]) auto
  have sub: "{k. cnt + 1 \<le> k \<and> conflictCandidate nm ext k \<in> set used}
          \<subseteq> {k. cnt \<le> k \<and> conflictCandidate nm ext k \<in> set used}"
    by auto
  have mem: "cnt \<in> {k. cnt \<le> k \<and> conflictCandidate nm ext k \<in> set used}"
    using 2 by simp
  have nmem: "cnt \<notin> {k. cnt + 1 \<le> k \<and> conflictCandidate nm ext k \<in> set used}"
    by simp
  from sub mem nmem
  have "{k. cnt + 1 \<le> k \<and> conflictCandidate nm ext k \<in> set used}
          \<subset> {k. cnt \<le> k \<and> conflictCandidate nm ext k \<in> set used}"
    by blast
  then show ?case using fin by (simp add: psubset_card_mono)
qed

declare conflictLoop.simps [simp del]

definition resolveFilenameConflict :: "RenameResult \<Rightarrow> string list \<Rightarrow> RenameResult" where
  "resolveFilenameConflict result usedFilenames =
     result\<lparr>filename := conflictLoop (fst (parseFilename (filename result)))
                           (snd (parseFilename (filename result))) usedFilenames 1,
            warnings := Some ((case warnings result of None \<Rightarrow> [] | Some w \<Rightarrow> w)
                              @ [''Filename conflict resolved with numeric suffix''])\<rparr>"

text \<open>
  The body of \<open>files.forEach\<close>. \<open>results\<close> is the \<open>Map<File, RenameResult>\<close> in insertion
  order, \<open>clock index\<close> the time at which the file at \<open>index\<close> is processed.
\<close>

text \<open>A clock that does not advance while the batch runs.\<close>

definition fixedClock :: "Date \<Rightarrow> nat \<Rightarrow> Date" where
  "fixedClock d index = d"

definition batchCounter :: "RenameOptions \<Rightarrow> nat \<Rightarrow> int" where
  "batchCounter options index =
     (case startCounter options of None \<Rightarrow> 1 | Some s \<Rightarrow> if s = 0 then 1 else s) + int index"

definition batchStep ::
  "(rat \<Rightarrow> string) \<Rightarrow> (nat \<Rightarrow> Date) \<Rightarrow> string \<Rightarrow> (string \<rightharpoonup> ExifData option) \<Rightarrow> RenameOptions
     \<Rightarrow> (File \<times> RenameResult) list \<times> string list \<Rightarrow> File \<Rightarrow> nat
     \<Rightarrow> (File \<times> RenameResult) list \<times> string list" where
  "batchStep fracToString clock template exifDataMap options st file index =
     (let exifData = (case exifDataMap (name file) of Some (Some e) \<Rightarrow> Some e | _ \<Rightarrow> None);
          renameOptions = options\<lparr>counter := Some (batchCounter options index)\<rparr>;
          result = generateFilename fracToString (clock index) template exifData (name file)
                     renameOptions;
          result = (if filename result \<in> set (snd st)
                    then resolveFilenameConflict result (snd st) else result)
      in (AList.update file result (fst st),
          if filename result \<in> set (snd st) then snd st else snd st @ [filename result]))"

fun batchLoop ::
  "(rat \<Rightarrow> string) \<Rightarrow> (nat \<Rightarrow> Date) \<Rightarrow> string \<Rightarrow> (string \<rightharpoonup> ExifData option) \<Rightarrow> RenameOptions
     \<Rightarrow> File list \<Rightarrow> nat \<Rightarrow> (File \<times> RenameResult) list \<times> string list
     \<Rightarrow> (File \<times> RenameResult) list \<times> string list" where
  "batchLoop fracToString clock template exifDataMap options [] index st = st"
| "batchLoop fracToString clock template exifDataMap options (file # files) index st =
     batchLoop fracToString clock template exifDataMap options files (index + 1)
       (batchStep fracToString clock template exifDataMap options st file index)"

definition batchRename ::
  "(rat \<Rightarrow> string) \<Rightarrow> (nat \<Rightarrow> Date) \<Rightarrow> File list \<Rightarrow> string \<Rightarrow> (string \<rightharpoonup> ExifData option)
     \<Rightarrow> RenameOptions \<Rightarrow> (File \<times> RenameResult) list" where
  "batchRename fracToString clock files template exifDataMap options =
     fst (batchLoop fracToString clock template exifDataMap options files 0 ([], []))"

section \<open>The archive assembler\<close>

definition INCOMPRESSIBLE_TYPES :: "string list" where
  "INCOMPRESSIBLE_TYPES =
     [''jpg'', ''jpeg'', ''png'', ''gif'', ''webp'', ''heic'', ''heif'', ''avif'',
      ''mp4'', ''mov'', ''avi'', ''mkv'', ''webm'',
      ''mp3'', ''aac'', ''flac'', ''m4a'', ''ogg'',
      ''zip'', ''rar'', ''7z'', ''gz'', ''bz2'',
      ''pdf'', ''docx'', ''xlsx'', ''pptx'']"

text \<open>On the code units modelled, \<open>toLowerCase\<close> changes the letters A to Z only.\<close>

definition toLowerCaseChar :: "char \<Rightarrow> char" where
  "toLowerCaseChar c =
     (if 65 \<le> (of_char c :: nat) \<and> (of_char c :: nat) \<le> 90
      then char_of ((of_char c :: nat) + 32) else c)"

definition toLowerCase :: "string \<Rightarrow> string" where
  "toLowerCase s = map toLowerCaseChar s"

definition getFileExtension :: "string \<Rightarrow> string" where
  "getFileExtension fname =
     (case lastIndexOf fname (CHR ''.'') of
        None \<Rightarrow> []
      | Some lastDot \<Rightarrow> toLowerCase (drop (lastDot + 1) fname))"

record ZipOptions =
  compressionLevel :: "nat option"
  includeMetadata :: "bool option"
  folderName :: "string option"

text \<open>
  An entry of \<open>zipInput\<close>: the bytes are those of a file, or the encoded text that
  \<open>generateMetadataFile\<close> makes from the files and the rename map;
  \<open>level\<close> and \<open>mtime\<close> are \<open>None\<close> where the entry carries no options of its own and the
  archive-wide options of the \<open>zip\<close> call apply. An \<open>mtime\<close> of \<open>Some None\<close> is the time of
  creation, \<open>new Date()\<close>.
\<close>

datatype entryData = FileBytes File | MetadataText "File list" "(File \<times> RenameResult) list"

record ZipEntry =
  payload :: entryData
  level :: "nat option"
  mtime :: "nat option option"

text \<open>
  What \<open>createZipAsync\<close> hands to the compression library: the entries by path, in
  insertion order, and the archive-wide level.
\<close>

record ZipCall =
  zipInput :: "(string \<times> ZipEntry) list"
  archiveLevel :: nat
  fileCount :: nat

fun zipInputLoop ::
  "(File \<times> RenameResult) list \<Rightarrow> nat \<Rightarrow> string \<Rightarrow> File list \<Rightarrow> (string \<times> ZipEntry) list
     \<Rightarrow> (string \<times> ZipEntry) list" where
  "zipInputLoop renameMap lvl folder [] acc = acc"
| "zipInputLoop renameMap lvl folder (file # files) acc =
     (case map_of renameMap file of
        None \<Rightarrow> zipInputLoop renameMap lvl folder files acc
      | Some renameResult \<Rightarrow>
          zipInputLoop renameMap lvl folder files
            (AList.update
               (if folder \<noteq> [] then folder @ ''/'' @ filename renameResult
                else filename renameResult)
               \<lparr>payload = FileBytes file,
                level = Some (if getFileExtension (name file) \<in> set INCOMPRESSIBLE_TYPES
                              then 0 else lvl),
                mtime = Some (if lastModified file \<noteq> 0 then Some (lastModified file)
                              else None)\<rparr>
               acc))"

definition createZipAsync ::
  "File list \<Rightarrow> (File \<times> RenameResult) list \<Rightarrow> ZipOptions \<Rightarrow> ZipCall" where
  "createZipAsync files renameMap options =
     (let lvl = (case compressionLevel options of None \<Rightarrow> 6 | Some l \<Rightarrow> l);
          withMetadata = (case includeMetadata options of None \<Rightarrow> False | Some b \<Rightarrow> b);
          folder = (case folderName options of None \<Rightarrow> [] | Some f \<Rightarrow> f);
          entries = zipInputLoop renameMap lvl folder files [];
          entries = (if withMetadata
                     then AList.update
                            (if folder \<noteq> [] then folder @ ''/metadata.txt'' else ''metadata.txt'')
                            \<lparr>payload = MetadataText files renameMap,
                             level = None, mtime = None\<rparr>
                            entries
                     else entries)
      in \<lparr>zipInput = entries, archiveLevel = lvl, fileCount = length files\<rparr>)"

text \<open>The level at which an entry is compressed by a call.\<close>

definition entryLevel :: "ZipCall \<Rightarrow> ZipEntry \<Rightarrow> nat" where
  "entryLevel call e = (case level e of None \<Rightarrow> archiveLevel call | Some l \<Rightarrow> l)"

section \<open>Auxiliary notions for the proofs\<close>

text \<open>A string in which no two underscores are adjacent.\<close>

fun noDoubleUnderscore :: "string \<Rightarrow> bool" where
  "noDoubleUnderscore [] = True"
| "noDoubleUnderscore [c] = True"
| "noDoubleUnderscore (c # d # cs) = (\<not> (c = CHR ''_'' \<and> d = CHR ''_'') \<and> noDoubleUnderscore (d # cs))"


text \<open>
  The result that the body of the loop of \<open>batchRename\<close> computes for a file before it looks
  at the names already used.
\<close>

definition batchCandidate ::
  "(rat \<Rightarrow> string) \<Rightarrow> (nat \<Rightarrow> Date) \<Rightarrow> string \<Rightarrow> (string \<rightharpoonup> ExifData option) \<Rightarrow> RenameOptions
     \<Rightarrow> File \<Rightarrow> nat \<Rightarrow> RenameResult" where
  "batchCandidate fts clock template exifDataMap options file index =
     generateFilename fts (clock index) template
       (case exifDataMap (name file) of Some (Some e) \<Rightarrow> Some e | _ \<Rightarrow> None) (name file)
       (options\<lparr>counter := Some (batchCounter options index)\<rparr>)"

text \<open>What the body of the loop stores: the candidate, resolved when its name is used.\<close>

definition resolveIfUsed :: "RenameResult \<Rightarrow> string list \<Rightarrow> RenameResult" where
  "resolveIfUsed g used =
     (if filename g \<in> set used then resolveFilenameConflict g used else g)"

text \<open>
  A token name in braces, with no brace inside: the shape of every token the resolver
  replaces.
\<close>

definition isToken :: "string \<Rightarrow> bool" where
  "isToken t =
     (case t of
        [] \<Rightarrow> False
      | c # r \<Rightarrow> c = CHR ''{'' \<and> r \<noteq> [] \<and> last r = CHR ''}''
                 \<and> CHR ''{'' \<notin> set (butlast r) \<and> CHR ''}'' \<notin> set (butlast r))"

text \<open>
  A run of blocks of the shape \<open>replaceOrWarn\<close>, given as the list of their tokens, values
  and warnings; \<open>cameraSteps\<close> is the list of the blocks of \<open>replaceCameraTokens\<close>.
\<close>

definition applySteps ::
  "(string \<times> string option \<times> string) list \<Rightarrow> string \<times> string list \<Rightarrow> string \<times> string list" where
  "applySteps tbl st = foldl (\<lambda>acc x. replaceOrWarn (fst x) (fst (snd x)) (snd (snd x)) acc) st tbl"

definition cameraSteps ::
  "(rat \<Rightarrow> string) \<Rightarrow> ExifData option \<Rightarrow> (string \<times> string option \<times> string) list" where
  "cameraSteps fts exifData =
     [(''{make}'', map_option sanitizeToken (truthyText make' exifData),
       ''Camera make not available in EXIF data''),
      (''{model}'', map_option sanitizeToken (truthyText model exifData),
       ''Camera model not available in EXIF data''),
      (''{lens}'', map_option sanitizeToken (truthyText lensModel exifData),
       ''Lens model not available in EXIF data''),
      (''{iso}'', map_option (\<lambda>n. ''ISO'' @ numberToString fts n) (truthyNum iso exifData),
       ''ISO not available in EXIF data''),
      (''{aperture}'', map_option (\<lambda>n. ''f'' @ numberToString fts n) (truthyNum fNumber exifData),
       ''Aperture not available in EXIF data''),
      (''{shutter}'', shutterValue fts exifData,
       ''Shutter speed not available in EXIF data''),
      (''{focal}'', map_option (\<lambda>n. numberToString fts n @ ''mm'') (truthyNum focalLength exifData),
       ''Focal length not available in EXIF data'')]"

text \<open>The warnings of a result as a list: \<open>result.warnings || []\<close>.\<close>

definition warningList :: "RenameResult \<Rightarrow> string list" where
  "warningList r = (case warnings r of None \<Rightarrow> [] | Some w \<Rightarrow> w)"

text \<open>A nullable field is absent when the record is absent or the field is null.\<close>

definition absent :: "(ExifData \<Rightarrow> 'a option) \<Rightarrow> ExifData option \<Rightarrow> bool" where
  "absent field exifData = (case exifData of None \<Rightarrow> True | Some e \<Rightarrow> field e = None)"

section \<open>Properties of the sanitization\<close>

lemma collapseWhitespace_fixed:
  "\<forall>c \<in> set s. \<not> isWhitespace c \<Longrightarrow> collapseWhitespace s = s"
  by (induction s) auto

lemma collapseUnderscores_fixed:
  "noDoubleUnderscore s \<Longrightarrow> collapseUnderscores s = s"
  by (induction s rule: noDoubleUnderscore.induct) auto

lemma underscore_not_whitespace: "\<not> isWhitespace (CHR ''_'')"
  by (simp add: isWhitespace_def)

lemma underscore_not_illegal: "\<not> isIllegalChar (CHR ''_'')"
  by (simp add: isIllegalChar_def)

lemma collapseWhitespace_set:
  "set (collapseWhitespace s) \<subseteq> insert (CHR ''_'') {c \<in> set s. \<not> isWhitespace c}"
proof (induction s rule: collapseWhitespace.induct)
  case 1
  show ?case by simp
next
  case (2 c cs)
  show ?case
  proof (cases "isWhitespace c")
    case True
    have "set (dropWhile isWhitespace cs) \<subseteq> set cs" by (rule set_dropWhileD[THEN subsetI]) 
    with 2(1)[OF True] True show ?thesis by auto
  next
    case False
    with 2(2)[OF False] show ?thesis by auto
  qed
qed

lemma collapseUnderscores_set: "set (collapseUnderscores s) \<subseteq> set s"
proof (induction s rule: collapseUnderscores.induct)
  case (3 c d cs)
  show ?case
  proof (cases "c = CHR ''_'' \<and> d = CHR ''_''")
    case True
    have "set (dropWhile (\<lambda>x. x = CHR ''_'') cs) \<subseteq> set cs" by (rule set_dropWhileD[THEN subsetI])
    with 3(1)[OF True] True show ?thesis by auto
  next
    case False
    with 3(2)[OF False] show ?thesis by auto
  qed
qed simp_all

lemma collapseUnderscores_head:
  "collapseUnderscores s = x # r \<Longrightarrow> \<exists>r'. s = x # r'"
  by (cases s rule: collapseUnderscores.cases) (auto split: if_splits)

lemma dropWhile_head: "dropWhile P s = x # r \<Longrightarrow> \<not> P x"
  by (metis hd_dropWhile list.sel(1) list.distinct(1))

lemma noDouble_Cons:
  "noDoubleUnderscore t \<Longrightarrow> (\<And>x r. t = x # r \<Longrightarrow> \<not> (c = CHR ''_'' \<and> x = CHR ''_'')) \<Longrightarrow> noDoubleUnderscore (c # t)"
  by (cases t) auto

lemma collapseUnderscores_noDouble: "noDoubleUnderscore (collapseUnderscores s)"
proof (induction s rule: collapseUnderscores.induct)
  case (3 c d cs)
  show ?case
  proof (cases "c = CHR ''_'' \<and> d = CHR ''_''")
    case True
    let ?t = "collapseUnderscores (dropWhile (\<lambda>x. x = CHR ''_'') cs)"
    have "noDoubleUnderscore (CHR ''_'' # ?t)"
    proof (rule noDouble_Cons)
      show "noDoubleUnderscore ?t" using 3(1)[OF True] .
    next
      fix x r assume "?t = x # r"
      then obtain r' where "dropWhile (\<lambda>x. x = CHR ''_'') cs = x # r'"
        using collapseUnderscores_head by blast
      then have "x \<noteq> CHR ''_''" using dropWhile_head by fastforce
      then show "\<not> (CHR ''_'' = CHR ''_'' \<and> x = CHR ''_'')" by simp
    qed
    with True show ?thesis by simp
  next
    case False
    have "noDoubleUnderscore (c # collapseUnderscores (d # cs))"
    proof (rule noDouble_Cons)
      show "noDoubleUnderscore (collapseUnderscores (d # cs))" using 3(2)[OF False] .
    next
      fix x r assume "collapseUnderscores (d # cs) = x # r"
      then have "x = d" using collapseUnderscores_head by fastforce
      with False show "\<not> (c = CHR ''_'' \<and> x = CHR ''_'')" by simp
    qed
    with False show ?thesis by auto
  qed
qed simp_all

lemma sanitize_twice:
  "sanitizeForFilename (Some (sanitizeForFilename v)) = sanitizeForFilename v"
proof (cases v)
  case None
  then show ?thesis by (simp add: sanitizeForFilename_def)
next
  case (Some s)
  define a where "a = filter (\<lambda>c. \<not> isIllegalChar c) s"
  define b where "b = collapseWhitespace a"
  define r where "r = collapseUnderscores b"
  have r: "sanitizeForFilename v = r"
    by (simp add: Some sanitizeForFilename_def a_def b_def r_def)
  have a_ok: "\<forall>c \<in> set a. \<not> isIllegalChar c" by (simp add: a_def)
  have b_sub: "set b \<subseteq> insert (CHR ''_'') {c \<in> set a. \<not> isWhitespace c}"
    unfolding b_def by (rule collapseWhitespace_set)
  have r_sub: "set r \<subseteq> set b" unfolding r_def by (rule collapseUnderscores_set)
  have r_legal: "\<forall>c \<in> set r. \<not> isIllegalChar c"
    using r_sub b_sub a_ok underscore_not_illegal by auto
  have r_nows: "\<forall>c \<in> set r. \<not> isWhitespace c"
    using r_sub b_sub underscore_not_whitespace by auto
  have r_nd: "noDoubleUnderscore r" unfolding r_def by (rule collapseUnderscores_noDouble)
  have "filter (\<lambda>c. \<not> isIllegalChar c) r = r" using r_legal by (simp add: filter_id_conv)
  moreover have "collapseWhitespace r = r" using r_nows by (rule collapseWhitespace_fixed)
  moreover have "collapseUnderscores r = r" using r_nd by (rule collapseUnderscores_fixed)
  ultimately have "sanitizeForFilename (Some r) = r" by (simp add: sanitizeForFilename_def)
  with r show ?thesis by simp
qed

text \<open>
  C9. The final filename sanitization (strip the characters that are illegal in filenames,
  replace every whitespace run by one underscore, collapse every run of two or more
  underscores to one) is idempotent: sanitizing an already sanitized string changes
  nothing. The null input, which sanitizes to the empty string, is included.
\<close>

theorem sanitizeForFilename_idempotent:
  "sanitizeForFilename (Some (sanitizeForFilename v)) = sanitizeForFilename v"
  by (rule sanitize_twice)

section \<open>Properties of the template parser\<close>

lemma parseLoop_lastIndex: "snd (parseLoop t li ts) = 0"
proof (induction t li ts rule: parseLoop.induct)
  case (1 template lastIndex tokens)
  show ?case
  proof (cases "searchToken template lastIndex")
    case None
    then show ?thesis by (subst parseLoop.simps) (simp add: exec_def)
  next
    case (Some p)
    obtain i tok len where p: "p = (i, tok, len)" by (cases p) auto
    have e: "exec template lastIndex = (Some (i, tok, len), i + len)"
      by (simp add: exec_def Some p)
    show ?thesis using 1[OF e[symmetric] refl refl refl] e
      by (subst parseLoop.simps) simp
  qed
qed

text \<open>
  C5. \<open>parseTemplate\<close> is pure: the token sequence it returns does not depend on the
  \<open>lastIndex\<close> the shared regular expression was left with, every call leaves
  \<open>lastIndex\<close> at 0, and a parse of any other template in between does not change the
  result of parsing \<open>t\<close> again.
\<close>

theorem parseTemplate_pure:
  "fst (parseTemplate t li) = fst (parseTemplate t li') \<and> snd (parseTemplate t li) = 0
   \<and> fst (parseTemplate t (snd (parseTemplate u li))) = fst (parseTemplate t li)"
  by (simp add: parseTemplate_def parseLoop_lastIndex)

section \<open>Properties of the archive assembler\<close>

lemma update_set_subset: "set (AList.update k v al) \<subseteq> insert (k, v) (set al)"
  by (induction al) auto

lemma zipInputLoop_entries:
  assumes "(p, e) \<in> set (zipInputLoop renameMap lvl folder files acc)"
  shows "(p, e) \<in> set acc
         \<or> (\<exists>file \<in> set files. payload e = FileBytes file
               \<and> level e = Some (if getFileExtension (name file) \<in> set INCOMPRESSIBLE_TYPES
                                   then 0 else lvl))"
  using assms
proof (induction files arbitrary: acc)
  case Nil
  then show ?case by simp
next
  case (Cons f files)
  show ?case
  proof (cases "map_of renameMap f")
    case None
    with Cons.prems have "(p, e) \<in> set (zipInputLoop renameMap lvl folder files acc)" by simp
    from Cons.IH[OF this] show ?thesis by auto
  next
    case (Some r)
    define k where "k = (if folder \<noteq> [] then folder @ ''/'' @ filename r else filename r)"
    define v where "v = \<lparr>payload = FileBytes f,
        level = Some (if getFileExtension (name f) \<in> set INCOMPRESSIBLE_TYPES then 0 else lvl),
        mtime = Some (if lastModified f \<noteq> 0 then Some (lastModified f) else None)\<rparr>"
    from Cons.prems Some
    have "(p, e) \<in> set (zipInputLoop renameMap lvl folder files (AList.update k v acc))"
      by (simp add: k_def v_def)
    from Cons.IH[OF this] show ?thesis
    proof
      assume "(p, e) \<in> set (AList.update k v acc)"
      then have "(p, e) = (k, v) \<or> (p, e) \<in> set acc" using update_set_subset by fastforce
      then show ?thesis by (auto simp: v_def)
    next
      assume "\<exists>file \<in> set files. payload e = FileBytes file
               \<and> level e = Some (if getFileExtension (name file) \<in> set INCOMPRESSIBLE_TYPES
                                   then 0 else lvl)"
      then show ?thesis by auto
    qed
  qed
qed

lemma lastIndexOf_append:
  assumes "c \<notin> set x"
  shows "lastIndexOf (n @ c # x) c = Some (length n)"
proof -
  have "\<forall>y \<in> set (rev x). y \<noteq> c" using assms by auto
  then have "takeWhile (\<lambda>y. y \<noteq> c) (rev x @ c # rev n) = rev x"
    by (simp add: takeWhile_tail)
  then have "takeWhile (\<lambda>y. y \<noteq> c) (rev (n @ c # x)) = rev x" by simp
  then show ?thesis by (simp add: lastIndexOf_def)
qed

lemma getFileExtension_append:
  "CHR ''.'' \<notin> set x \<Longrightarrow> getFileExtension (n @ ''.'' @ x) = toLowerCase x"
  by (simp add: getFileExtension_def lastIndexOf_append)

text \<open>
  C6. In the call that \<open>createZipAsync\<close> makes, every entry holding the bytes of a file whose
  original name has an extension in the already-compressed set is at level 0, and every
  other entry (another file, or the metadata text) is at \<open>options.compressionLevel\<close>, which
  is 6 when not supplied. The extension is the text after the last dot of the original
  name, lower-cased, so the comparison ignores case.
\<close>

theorem createZipAsync_entry_level:
  assumes "(p, e) \<in> set (zipInput (createZipAsync files renameMap options))"
  shows "entryLevel (createZipAsync files renameMap options) e =
           (case payload e of
              FileBytes file \<Rightarrow>
                if getFileExtension (name file) \<in> set INCOMPRESSIBLE_TYPES then 0
                else (case compressionLevel options of None \<Rightarrow> 6 | Some l \<Rightarrow> l)
            | MetadataText fs m \<Rightarrow> (case compressionLevel options of None \<Rightarrow> 6 | Some l \<Rightarrow> l))
         \<and> (\<forall>n x. CHR ''.'' \<notin> set x \<longrightarrow> getFileExtension (n @ ''.'' @ x) = toLowerCase x)"
proof -
  define lvl where "lvl = (case compressionLevel options of None \<Rightarrow> 6 | Some l \<Rightarrow> l)"
  define folder where "folder = (case folderName options of None \<Rightarrow> [] | Some f \<Rightarrow> f)"
  define base where "base = zipInputLoop renameMap lvl folder files []"
  define mk where "mk = (if folder \<noteq> [] then folder @ ''/metadata.txt'' else ''metadata.txt'')"
  define mv where "mv = \<lparr>payload = MetadataText files renameMap, level = None, mtime = None\<rparr>"
  have al: "archiveLevel (createZipAsync files renameMap options) = lvl"
    by (simp add: createZipAsync_def Let_def lvl_def)
  have zi: "zipInput (createZipAsync files renameMap options) = base
            \<or> zipInput (createZipAsync files renameMap options) = AList.update mk mv base"
    by (simp add: createZipAsync_def Let_def lvl_def folder_def base_def mk_def mv_def)
  from assms zi have "(p, e) \<in> set base \<or> (p, e) = (mk, mv)"
    using update_set_subset[of mk mv base] by auto
  then have "entryLevel (createZipAsync files renameMap options) e =
           (case payload e of
              FileBytes file \<Rightarrow>
                if getFileExtension (name file) \<in> set INCOMPRESSIBLE_TYPES then 0 else lvl
            | MetadataText fs m \<Rightarrow> lvl)"
  proof
    assume "(p, e) \<in> set base"
    then obtain f where "payload e = FileBytes f"
      and "level e = Some (if getFileExtension (name f) \<in> set INCOMPRESSIBLE_TYPES
                                   then 0 else lvl)"
      unfolding base_def using zipInputLoop_entries[of p e renameMap lvl folder files "[]"] by auto
    then show ?thesis by (simp add: entryLevel_def)
  next
    assume "(p, e) = (mk, mv)"
    then show ?thesis by (simp add: entryLevel_def mv_def al)
  qed
  then have levels: "entryLevel (createZipAsync files renameMap options) e =
           (case payload e of
              FileBytes file \<Rightarrow>
                if getFileExtension (name file) \<in> set INCOMPRESSIBLE_TYPES then 0
                else (case compressionLevel options of None \<Rightarrow> 6 | Some l \<Rightarrow> l)
            | MetadataText fs m \<Rightarrow> (case compressionLevel options of None \<Rightarrow> 6 | Some l \<Rightarrow> l))"
    unfolding lvl_def .
  have "\<forall>n x. CHR ''.'' \<notin> set x \<longrightarrow> getFileExtension (n @ ''.'' @ x) = toLowerCase x"
    using getFileExtension_append by blast
  with levels show ?thesis by blast
qed

theorem createZipAsync_entry_level_witness:
  "(''x.txt'', \<lparr>payload = FileBytes \<lparr>ident = 0, name = ''A.JPG'', lastModified = 5\<rparr>,
                level = Some 0, mtime = Some (Some 5)\<rparr>)
     \<in> set (zipInput (createZipAsync
                         [\<lparr>ident = 0, name = ''A.JPG'', lastModified = 5\<rparr>]
                         [(\<lparr>ident = 0, name = ''A.JPG'', lastModified = 5\<rparr>,
                           \<lparr>filename = ''x.txt'', success = True, warnings = None\<rparr>)]
                         \<lparr>compressionLevel = Some 9, includeMetadata = None, folderName = None\<rparr>))
   \<and> entryLevel (createZipAsync
                    [\<lparr>ident = 0, name = ''A.JPG'', lastModified = 5\<rparr>]
                    [(\<lparr>ident = 0, name = ''A.JPG'', lastModified = 5\<rparr>,
                      \<lparr>filename = ''x.txt'', success = True, warnings = None\<rparr>)]
                    \<lparr>compressionLevel = Some 9, includeMetadata = None, folderName = None\<rparr>)
        \<lparr>payload = FileBytes \<lparr>ident = 0, name = ''A.JPG'', lastModified = 5\<rparr>,
         level = Some 0, mtime = Some (Some 5)\<rparr> = 0"
proof -
  have ext: "getFileExtension ''A.JPG'' = ''jpg''"
    by code_simp
  have mem: "(''x.txt'', \<lparr>payload = FileBytes \<lparr>ident = 0, name = ''A.JPG'', lastModified = 5\<rparr>,
                level = Some 0, mtime = Some (Some 5)\<rparr>)
     \<in> set (zipInput (createZipAsync
                         [\<lparr>ident = 0, name = ''A.JPG'', lastModified = 5\<rparr>]
                         [(\<lparr>ident = 0, name = ''A.JPG'', lastModified = 5\<rparr>,
                           \<lparr>filename = ''x.txt'', success = True, warnings = None\<rparr>)]
                         \<lparr>compressionLevel = Some 9, includeMetadata = None, folderName = None\<rparr>))"
    by (simp add: createZipAsync_def ext INCOMPRESSIBLE_TYPES_def)
  from createZipAsync_entry_level[OF mem] mem show ?thesis
    by (simp add: ext INCOMPRESSIBLE_TYPES_def)
qed

section \<open>Properties of the field resolver\<close>

lemma parseFilename_append:
  "n \<noteq> [] \<Longrightarrow> CHR ''.'' \<notin> set ext \<Longrightarrow> parseFilename (n @ ''.'' @ ext) = (n, ext)"
  by (simp add: parseFilename_def lastIndexOf_append)

lemma generateFilename_preserve:
  "snd (parseFilename f) \<noteq> [] \<Longrightarrow> preserveExtension options \<noteq> Some False \<Longrightarrow>
   filename (generateFilename fts now t e f options) =
   filename (generateFilename fts now t e f (options\<lparr>preserveExtension := Some False\<rparr>))
     @ ''.'' @ snd (parseFilename f)"
  by (cases "preserveExtension options") (simp_all add: generateFilename_def Let_def)

lemma generateFilename_base_sanitized:
  "sanitizeForFilename
     (Some (filename (generateFilename fts now t e f (options\<lparr>preserveExtension := Some False\<rparr>))))
   = filename (generateFilename fts now t e f (options\<lparr>preserveExtension := Some False\<rparr>))"
  by (simp add: generateFilename_def Let_def sanitize_twice)

text \<open>
  C7, as the specification states it, fails: the extension is appended as it is written in
  the original filename, not lower-cased. \<open>IMG.JPG\<close> under the template \<open>x\<close> becomes
  \<open>x.JPG\<close>.
\<close>

theorem generateFilename_extension_counterexample:
  "filename (generateFilename integralPart None ''x'' None ''IMG.JPG''
               (noOptions\<lparr>preserveExtension := Some True\<rparr>))
   \<noteq> filename (generateFilename integralPart None ''x'' None ''IMG.JPG''
                 (noOptions\<lparr>preserveExtension := Some False\<rparr>))
       @ ''.'' @ toLowerCase (snd (parseFilename ''IMG.JPG''))"
  by code_simp

text \<open>
  C7, amended. With \<open>preserveExtension\<close> true (or left out), when the original filename is
  a non-empty name, a dot and a non-empty extension without a dot, the returned filename is
  the sanitized base name (what the call returns with \<open>preserveExtension\<close> false, a fixed
  point of the sanitization), then a dot, then the extension exactly as written.
\<close>

theorem generateFilename_extension:
  assumes "preserveExtension options \<noteq> Some False"
    and "n \<noteq> []" and "ext \<noteq> []" and "CHR ''.'' \<notin> set ext"
  shows "filename (generateFilename fts now t e (n @ ''.'' @ ext) options) =
           filename (generateFilename fts now t e (n @ ''.'' @ ext)
                       (options\<lparr>preserveExtension := Some False\<rparr>)) @ ''.'' @ ext
         \<and> sanitizeForFilename
             (Some (filename (generateFilename fts now t e (n @ ''.'' @ ext)
                                (options\<lparr>preserveExtension := Some False\<rparr>))))
           = filename (generateFilename fts now t e (n @ ''.'' @ ext)
                         (options\<lparr>preserveExtension := Some False\<rparr>))"
proof -
  have p: "parseFilename (n @ ''.'' @ ext) = (n, ext)"
    using assms(2,4) by (rule parseFilename_append)
  then have "snd (parseFilename (n @ ''.'' @ ext)) \<noteq> []" using assms(3) by simp
  from generateFilename_preserve[OF this assms(1)] p
  have "filename (generateFilename fts now t e (n @ ''.'' @ ext) options) =
           filename (generateFilename fts now t e (n @ ''.'' @ ext)
                       (options\<lparr>preserveExtension := Some False\<rparr>)) @ ''.'' @ ext"
    by simp
  then show ?thesis using generateFilename_base_sanitized by blast
qed

theorem generateFilename_extension_witness:
  "preserveExtension (noOptions\<lparr>preserveExtension := Some True\<rparr>) \<noteq> Some False
   \<and> ''IMG'' \<noteq> [] \<and> ''JPG'' \<noteq> [] \<and> CHR ''.'' \<notin> set ''JPG''
   \<and> filename (generateFilename integralPart None ''a b'' None (''IMG'' @ ''.'' @ ''JPG'')
                 (noOptions\<lparr>preserveExtension := Some True\<rparr>)) = ''a_b.JPG''"
proof -
  have base: "filename (generateFilename integralPart None ''a b'' None (''IMG'' @ ''.'' @ ''JPG'')
                 (noOptions\<lparr>preserveExtension := Some True, preserveExtension := Some False\<rparr>))
              = ''a_b''"
    by code_simp
  have h: "preserveExtension (noOptions\<lparr>preserveExtension := Some True\<rparr>) \<noteq> Some False"
    by simp
  from generateFilename_extension[OF h, of "''IMG''" "''JPG''" integralPart None "''a b''" None]
  show ?thesis using base by simp
qed










section \<open>Values that are present but falsy\<close>












lemma replaceOrWarn_None:
  "includes' s tok \<Longrightarrow> replaceOrWarn tok None w (s, ws) = (replaceAll s tok [], ws @ [w])"
  by (simp add: replaceOrWarn_def)






section \<open>Properties of the batch orchestrator\<close>

lemma conflictLoop_spec:
  "\<exists>k\<ge>cnt. conflictLoop nm ext used cnt = conflictCandidate nm ext k
     \<and> conflictCandidate nm ext k \<notin> set used
     \<and> (\<forall>j. cnt \<le> j \<and> j < k \<longrightarrow> conflictCandidate nm ext j \<in> set used)"
proof (induction nm ext used cnt rule: conflictLoop.induct)
  case (1 nm ext used cnt)
  show ?case
  proof (cases "conflictCandidate nm ext cnt \<in> set used")
    case True
    from 1[OF True] obtain k where k: "cnt + 1 \<le> k"
      "conflictLoop nm ext used (cnt + 1) = conflictCandidate nm ext k"
      "conflictCandidate nm ext k \<notin> set used"
      "\<forall>j. cnt + 1 \<le> j \<and> j < k \<longrightarrow> conflictCandidate nm ext j \<in> set used"
      by blast
    have "conflictLoop nm ext used cnt = conflictCandidate nm ext k"
      using True k(2) by (subst conflictLoop.simps) simp
    moreover have "\<forall>j. cnt \<le> j \<and> j < k \<longrightarrow> conflictCandidate nm ext j \<in> set used"
    proof (intro allI impI)
      fix j assume j: "cnt \<le> j \<and> j < k"
      show "conflictCandidate nm ext j \<in> set used"
      proof (cases "j = cnt")
        case True
        with \<open>conflictCandidate nm ext cnt \<in> set used\<close> show ?thesis by simp
      next
        case False
        with j have "cnt + 1 \<le> j \<and> j < k" by simp
        with k(4) show ?thesis by blast
      qed
    qed
    ultimately show ?thesis using k(1,3) by (intro exI[of _ k]) simp
  next
    case False
    then have "conflictLoop nm ext used cnt = conflictCandidate nm ext cnt"
      by (subst conflictLoop.simps) simp
    with False show ?thesis by (intro exI[of _ cnt]) auto
  qed
qed


lemma update_filenames:
  assumes "distinct (map filename (map snd al))"
    and "filename v \<notin> set (map filename (map snd al))"
  shows "distinct (map filename (map snd (AList.update k v al)))
         \<and> set (map filename (map snd (AList.update k v al)))
             \<subseteq> insert (filename v) (set (map filename (map snd al)))"
  using assms
proof (induction al)
  case Nil
  then show ?case by simp
next
  case (Cons p al)
  show ?case
  proof (cases "fst p = k")
    case True
    with Cons.prems show ?thesis by auto
  next
    case False
    from Cons.prems have "distinct (map filename (map snd al))"
      and "filename v \<notin> set (map filename (map snd al))" by auto
    from Cons.IH[OF this] Cons.prems False show ?thesis by auto
  qed
qed

lemma resolve_fresh:
  "filename (resolveFilenameConflict g used) \<notin> set used"
proof -
  obtain k where "conflictLoop (fst (parseFilename (filename g))) (snd (parseFilename (filename g))) used 1
        = conflictCandidate (fst (parseFilename (filename g))) (snd (parseFilename (filename g))) k"
      and "conflictCandidate (fst (parseFilename (filename g))) (snd (parseFilename (filename g))) k \<notin> set used"
    using conflictLoop_spec by blast
  then show ?thesis by (simp add: resolveFilenameConflict_def)
qed

lemma resolveIfUsed_fresh: "filename (resolveIfUsed g used) \<notin> set used"
  using resolve_fresh[of g used] by (simp add: resolveIfUsed_def)

lemma batchStep_shape:
  "batchStep fts clock template exifDataMap options st f index
     = (AList.update f
          (resolveIfUsed (batchCandidate fts clock template exifDataMap options f index) (snd st))
          (fst st),
        snd st @ [filename
          (resolveIfUsed (batchCandidate fts clock template exifDataMap options f index) (snd st))])"
  using resolve_fresh[of "batchCandidate fts clock template exifDataMap options f index" "snd st"]
  by (simp add: batchStep_def Let_def batchCandidate_def resolveIfUsed_def)

lemma batchStep_invariant:
  assumes "distinct (map filename (map snd (fst st)))"
    and "set (map filename (map snd (fst st))) \<subseteq> set (snd st)"
  shows "distinct (map filename (map snd (fst (batchStep fts clock template exifDataMap options st f index))))
       \<and> set (map filename (map snd (fst (batchStep fts clock template exifDataMap options st f index))))
           \<subseteq> set (snd (batchStep fts clock template exifDataMap options st f index))"
proof -
  define r where "r = resolveIfUsed (batchCandidate fts clock template exifDataMap options f index) (snd st)"
  have step: "batchStep fts clock template exifDataMap options st f index
                = (AList.update f r (fst st), snd st @ [filename r])"
    unfolding r_def by (rule batchStep_shape)
  have fresh: "filename r \<notin> set (snd st)" unfolding r_def by (rule resolveIfUsed_fresh)
  with assms(2) have "filename r \<notin> set (map filename (map snd (fst st)))" by blast
  from update_filenames[OF assms(1) this, of f]
  have d: "distinct (map filename (map snd (AList.update f r (fst st))))"
    and sub: "set (map filename (map snd (AList.update f r (fst st))))
             \<subseteq> insert (filename r) (set (map filename (map snd (fst st))))"
    by blast+
  from sub assms(2)
  have "set (map filename (map snd (AList.update f r (fst st)))) \<subseteq> set (snd st @ [filename r])"
    by auto
  with d show ?thesis unfolding step by simp
qed

lemma batchLoop_invariant:
  assumes "distinct (map filename (map snd (fst st)))"
    and "set (map filename (map snd (fst st))) \<subseteq> set (snd st)"
  shows "distinct (map filename (map snd (fst (batchLoop fts clock template exifDataMap options files index st))))"
  using assms
proof (induction files arbitrary: index st)
  case Nil
  then show ?case by simp
next
  case (Cons f files)
  from batchStep_invariant[OF Cons.prems, of fts clock template exifDataMap options f index]
  show ?case using Cons.IH by simp
qed

text \<open>
  C1. The filenames of the results that \<open>batchRename\<close> returns are pairwise distinct, for
  every file list, template, metadata map, options and clock.
\<close>

theorem batchRename_unique:
  "distinct (map filename (map snd (batchRename fts clock files template exifDataMap options)))"
  unfolding batchRename_def by (rule batchLoop_invariant) simp_all

lemma batchLoop_other:
  "f \<notin> set files \<Longrightarrow>
   map_of (fst (batchLoop fts clock template exifDataMap options files index st)) f
     = map_of (fst st) f"
proof (induction files arbitrary: index st)
  case Nil
  then show ?case by simp
next
  case (Cons g files)
  then have "f \<notin> set files" and "g \<noteq> f" by auto
  from Cons.IH[OF this(1)] \<open>g \<noteq> f\<close> show ?case
    by (simp add: batchStep_shape update_conv')
qed

lemma batchLoop_at:
  assumes "i < length files" and "files ! i \<notin> set (drop (Suc i) files)"
  shows "\<exists>used. map_of (fst (batchLoop fts clock template exifDataMap options files index st)) (files ! i)
           = Some (resolveIfUsed
                     (batchCandidate fts clock template exifDataMap options (files ! i) (index + i)) used)"
  using assms
proof (induction files arbitrary: i index st)
  case Nil
  then show ?case by simp
next
  case (Cons f files)
  show ?case
  proof (cases i)
    case 0
    with Cons.prems have "f \<notin> set files" by simp
    from batchLoop_other[OF this] 0 show ?thesis
      by (intro exI[of _ "snd st"]) (simp add: batchStep_shape update_conv')
  next
    case (Suc j)
    with Cons.prems have "j < length files" and "files ! j \<notin> set (drop (Suc j) files)" by simp_all
    from Cons.IH[OF this, of "index + 1" "batchStep fts clock template exifDataMap options st f index"]
    show ?thesis using Suc by simp
  qed
qed

text \<open>
  C2, as the specification states it, fails for \<open>startCounter = 0\<close>: the counter of the
  first file is then 1, not 0, because \<open>options.startCounter || 1\<close> replaces a zero too.
\<close>

theorem batchRename_counter_counterexample:
  "map filename (map snd
     (batchRename integralPart (fixedClock None) [\<lparr>ident = 0, name = ''a.jpg'', lastModified = 0\<rparr>]
        ''{counter}'' Map.empty (noOptions\<lparr>startCounter := Some 0\<rparr>)))
   \<noteq> [filename (generateFilename integralPart None ''{counter}'' None ''a.jpg''
                 (noOptions\<lparr>startCounter := Some 0, counter := Some (0 + int 0)\<rparr>))]"
  by code_simp

text \<open>
  C2, amended. The result that \<open>batchRename\<close> holds for the file at index \<open>i\<close> (when the
  same \<open>File\<close> object does not occur again later in the list, where it would overwrite the
  entry) is the one \<open>generateFilename\<close> computes with the counter \<open>s + i\<close>, resolved against the
  names used so far; \<open>s\<close> is \<open>startCounter\<close> when that is supplied and not 0, and 1 otherwise.
  The counter does not depend on the metadata map.
\<close>

theorem batchRename_counter:
  assumes "i < length files" and "files ! i \<notin> set (drop (Suc i) files)"
  shows "\<exists>used. map_of (batchRename fts clock files template exifDataMap options) (files ! i)
           = Some (resolveIfUsed
                     (generateFilename fts (clock i) template
                        (case exifDataMap (name (files ! i)) of Some (Some e) \<Rightarrow> Some e | _ \<Rightarrow> None)
                        (name (files ! i))
                        (options\<lparr>counter := Some ((case startCounter options of
                                                      None \<Rightarrow> 1
                                                    | Some s \<Rightarrow> if s = 0 then 1 else s) + int i)\<rparr>))
                     used)"
  using batchLoop_at[OF assms, of fts clock template exifDataMap options 0 "([], [])"]
  by (simp add: batchRename_def batchCandidate_def batchCounter_def)

theorem batchRename_counter_witness:
  "(1 :: nat) < length [\<lparr>ident = 0, name = ''a.jpg'', lastModified = 0\<rparr>,
                       \<lparr>ident = 1, name = ''b.jpg'', lastModified = 0\<rparr>]
   \<and> [\<lparr>ident = 0, name = ''a.jpg'', lastModified = 0\<rparr>,
       \<lparr>ident = 1, name = ''b.jpg'', lastModified = 0\<rparr>] ! 1
       \<notin> set (drop (Suc 1) [\<lparr>ident = 0, name = ''a.jpg'', lastModified = 0\<rparr>,
                               \<lparr>ident = 1, name = ''b.jpg'', lastModified = 0\<rparr>])
   \<and> (\<exists>used. map_of (batchRename integralPart (fixedClock None)
                         [\<lparr>ident = 0, name = ''a.jpg'', lastModified = 0\<rparr>,
                          \<lparr>ident = 1, name = ''b.jpg'', lastModified = 0\<rparr>]
                         ''{counter}'' Map.empty (noOptions\<lparr>startCounter := Some 5\<rparr>))
                 \<lparr>ident = 1, name = ''b.jpg'', lastModified = 0\<rparr>
          = Some (resolveIfUsed \<lparr>filename = ''006.jpg'', success = True, warnings = None\<rparr> used))"
proof -
  have g: "generateFilename integralPart (fixedClock None 1) ''{counter}'' None ''b.jpg''
             (noOptions\<lparr>startCounter := Some 5, counter := Some (5 + int 1)\<rparr>)
           = \<lparr>filename = ''006.jpg'', success = True, warnings = None\<rparr>"
    by code_simp
  have h1: "(1 :: nat) < length [\<lparr>ident = 0, name = ''a.jpg'', lastModified = 0\<rparr>,
                       \<lparr>ident = 1, name = ''b.jpg'', lastModified = 0\<rparr>]" by simp
  have h2: "[\<lparr>ident = 0, name = ''a.jpg'', lastModified = 0\<rparr>,
       \<lparr>ident = 1, name = ''b.jpg'', lastModified = 0\<rparr>] ! 1
       \<notin> set (drop (Suc 1) [\<lparr>ident = 0, name = ''a.jpg'', lastModified = 0\<rparr>,
                               \<lparr>ident = 1, name = ''b.jpg'', lastModified = 0\<rparr>])" by simp
  from batchRename_counter[OF h1 h2, of integralPart "fixedClock None" "''{counter}''" Map.empty
      "noOptions\<lparr>startCounter := Some 5\<rparr>"]
  show ?thesis using g by (simp add: noOptions_def)
qed



section \<open>Missing metadata\<close>

lemma isTokenD:
  assumes "isToken t"
  obtains m where "t = CHR ''{'' # m @ ''}''" and "CHR ''{'' \<notin> set m" and "CHR ''}'' \<notin> set m"
proof -
  from assms obtain r where t: "t = CHR ''{'' # r" and r: "r \<noteq> []" "last r = CHR ''}''"
    "CHR ''{'' \<notin> set (butlast r)" "CHR ''}'' \<notin> set (butlast r)"
    by (auto simp: isToken_def split: list.splits)
  from r(1,2) have "r = butlast r @ ''}''" by (metis append_butlast_last_id)
  with t r(3,4) show ?thesis using that[of "butlast r"] by simp
qed

lemma includes'_iff: "includes' s tok \<longleftrightarrow> (\<exists>a b. s = a @ tok @ b)"
proof (induction s)
  case Nil
  show ?case by auto
next
  case (Cons c cs)
  show ?case
  proof
    assume "includes' (c # cs) tok"
    then consider "prefix tok (c # cs)" | "includes' cs tok" by auto
    then show "\<exists>a b. c # cs = a @ tok @ b"
    proof cases
      case 1
      then obtain z where "c # cs = tok @ z" by (auto simp: prefix_def)
      then have "c # cs = [] @ tok @ z" by simp
      then show ?thesis by blast
    next
      case 2
      with Cons.IH obtain a b where "cs = a @ tok @ b" by blast
      then have "c # cs = (c # a) @ tok @ b" by simp
      then show ?thesis by blast
    qed
  next
    assume "\<exists>a b. c # cs = a @ tok @ b"
    then obtain a b where ab: "c # cs = a @ tok @ b" by blast
    show "includes' (c # cs) tok"
    proof (cases a)
      case Nil
      with ab have "prefix tok (c # cs)" by (simp add: prefix_def)
      then show ?thesis by simp
    next
      case (Cons d a')
      with ab have "cs = a' @ tok @ b" by simp
      with Cons.IH have "includes' cs tok" by blast
      then show ?thesis by simp
    qed
  qed
qed

lemma replaceFrom_match:
  assumes "tok \<noteq> []" and "prefix tok s"
  shows "replaceFrom tok r pre s
           = getSubstitution tok pre (drop (length tok) s) r
             @ replaceFrom tok r (pre @ tok) (drop (length tok) s)"
proof (cases s)
  case Nil
  with assms show ?thesis by simp
next
  case (Cons c cs)
  with assms show ?thesis by (simp add: replaceFrom.simps(2))
qed

lemma replaceFrom_nomatch:
  "\<not> prefix tok (c # cs) \<Longrightarrow>
   replaceFrom tok r pre (c # cs) = c # replaceFrom tok r (pre @ [c]) cs"
  by (simp add: replaceFrom.simps(2))

lemma replaceFrom_skip:
  assumes "CHR ''{'' \<notin> set w"
  shows "replaceFrom (CHR ''{'' # m) r pre (w @ z) = w @ replaceFrom (CHR ''{'' # m) r (pre @ w) z"
  using assms
proof (induction w arbitrary: pre)
  case Nil
  show ?case by simp
next
  case (Cons c w)
  then have c: "c \<noteq> CHR ''{''" and w: "CHR ''{'' \<notin> set w" by auto
  from c have "replaceFrom (CHR ''{'' # m) r pre ((c # w) @ z)
                 = c # replaceFrom (CHR ''{'' # m) r (pre @ [c]) (w @ z)"
    by (simp add: replaceFrom.simps(2))
  with Cons.IH[OF w, of "pre @ [c]"] show ?case by simp
qed

lemma prefix_until:
  "x \<notin> set m \<Longrightarrow> x \<notin> set n \<Longrightarrow> prefix (m @ [x]) (n @ x # b) \<Longrightarrow> m = n"
proof (induction m arbitrary: n)
  case Nil
  then show ?case by (cases n) auto
next
  case (Cons c m)
  then show ?case by (cases n) auto
qed

lemma token_prefix_same:
  assumes "CHR ''}'' \<notin> set m" and "CHR ''}'' \<notin> set n"
    and "prefix (CHR ''{'' # m @ ''}'') ((CHR ''{'' # n @ ''}'') @ b)"
  shows "m = n"
  using assms prefix_until[of "CHR ''}''" m n b] by simp

lemma token_prefix_inside:
  assumes m: "CHR ''{'' \<notin> set m"
    and p: "prefix (CHR ''{'' # m @ ''}'') (a @ (CHR ''{'' # n @ ''}'') @ b)"
    and a: "a \<noteq> []"
  shows "prefix (CHR ''{'' # m @ ''}'') a"
proof (rule ccontr)
  assume np: "\<not> prefix (CHR ''{'' # m @ ''}'') a"
  have "prefix a (a @ (CHR ''{'' # n @ ''}'') @ b)" by simp
  with p have "prefix (CHR ''{'' # m @ ''}'') a \<or> prefix a (CHR ''{'' # m @ ''}'')"
    by (rule prefix_same_cases)
  with np obtain u where u: "CHR ''{'' # m @ ''}'' = a @ u" by (auto simp: prefix_def)
  from p obtain z where z: "a @ (CHR ''{'' # n @ ''}'') @ b = (CHR ''{'' # m @ ''}'') @ z"
    by (auto simp: prefix_def)
  with u have "a @ (CHR ''{'' # n @ ''}'') @ b = a @ u @ z" by simp
  then have uz: "(CHR ''{'' # n @ ''}'') @ b = u @ z" by simp
  have "u \<noteq> []"
  proof
    assume "u = []"
    with u have "prefix (CHR ''{'' # m @ ''}'') a" by simp
    with np show False by contradiction
  qed
  with uz have "CHR ''{'' \<in> set u" by (cases u) auto
  moreover from a u obtain a' where "a = CHR ''{'' # a'" by (cases a) auto
  with u have "m @ ''}'' = a' @ u" by simp
  then have "set u \<subseteq> set (m @ ''}'')" by (metis set_append Un_upper2)
  ultimately show False using m by auto
qed

lemma replaceFrom_persist:
  assumes m: "CHR ''{'' \<notin> set m" "CHR ''}'' \<notin> set m"
    and n: "CHR ''{'' \<notin> set n" "CHR ''}'' \<notin> set n"
    and ne: "m \<noteq> n"
  shows "\<exists>a' b'. replaceFrom (CHR ''{'' # m @ ''}'') r pre (a @ (CHR ''{'' # n @ ''}'') @ b)
                  = a' @ (CHR ''{'' # n @ ''}'') @ b'"
proof (induction "length a" arbitrary: a pre rule: less_induct)
  case less
  let ?S = "CHR ''{'' # m @ ''}''"
  let ?T = "CHR ''{'' # n @ ''}''"
  show ?case
  proof (cases a)
    case Nil
    have np: "\<not> prefix ?S (?T @ b)"
      using token_prefix_same[OF m(2) n(2), of b] ne by blast
    have "CHR ''{'' \<notin> set (n @ ''}'')" using n(1) by simp
    from replaceFrom_skip[OF this, of "m @ ''}''" r "pre @ ''{''" b]
    have "replaceFrom ?S r (pre @ ''{'') (n @ ''}'' @ b)
            = (n @ ''}'') @ replaceFrom ?S r (pre @ ''{'' @ n @ ''}'') b" by simp
    with np have "replaceFrom ?S r pre (?T @ b)
            = [] @ ?T @ replaceFrom ?S r (pre @ ''{'' @ n @ ''}'') b"
      by (simp add: replaceFrom.simps(2))
    with Nil show ?thesis by (metis append_Nil)
  next
    case (Cons c a2)
    show ?thesis
    proof (cases "prefix ?S (a @ ?T @ b)")
      case True
      have "a \<noteq> []" using Cons by simp
      from token_prefix_inside[OF m(1) True this] obtain a4 where a4: "a = ?S @ a4"
        by (auto simp: prefix_def)
      then have "length a4 < length a" by simp
      from less[OF this, of "pre @ ?S"] obtain a' b' where
        r: "replaceFrom ?S r (pre @ ?S) (a4 @ ?T @ b) = a' @ ?T @ b'" by blast
      have d: "drop (length ?S) (a @ ?T @ b) = a4 @ ?T @ b" unfolding a4 by simp
      have "replaceFrom ?S r pre (a @ ?T @ b)
          = getSubstitution ?S pre (drop (length ?S) (a @ ?T @ b)) r
            @ replaceFrom ?S r (pre @ ?S) (drop (length ?S) (a @ ?T @ b))"
        by (rule replaceFrom_match[OF _ True]) simp
      then have "replaceFrom ?S r pre (a @ ?T @ b)
          = (getSubstitution ?S pre (a4 @ ?T @ b) r @ a') @ ?T @ b'"
        unfolding d r by simp
      then show ?thesis by blast
    next
      case False
      have "length a2 < length a" using Cons by simp
      from less[OF this, of "pre @ [c]"] obtain a' b' where
        r: "replaceFrom ?S r (pre @ [c]) (a2 @ ?T @ b) = a' @ ?T @ b'" by blast
      have e: "a @ ?T @ b = c # (a2 @ ?T @ b)" using Cons by simp
      from False have "replaceFrom ?S r pre (c # (a2 @ ?T @ b))
                         = c # replaceFrom ?S r (pre @ [c]) (a2 @ ?T @ b)"
        unfolding e by (rule replaceFrom_nomatch)
      then have "replaceFrom ?S r pre (a @ ?T @ b) = (c # a') @ ?T @ b'"
        unfolding e r by simp
      then show ?thesis by blast
    qed
  qed
qed

lemma replaceAll_persist:
  assumes "isToken S" and "isToken T" and "S \<noteq> T" and "includes' s T"
  shows "includes' (replaceAll s S r) T"
proof -
  from assms(1) obtain m where m: "S = CHR ''{'' # m @ ''}''" "CHR ''{'' \<notin> set m" "CHR ''}'' \<notin> set m"
    by (rule isTokenD)
  from assms(2) obtain n where n: "T = CHR ''{'' # n @ ''}''" "CHR ''{'' \<notin> set n" "CHR ''}'' \<notin> set n"
    by (rule isTokenD)
  from assms(3) m(1) n(1) have ne: "m \<noteq> n" by auto
  from assms(4) obtain a b where "s = a @ T @ b" unfolding includes'_iff by blast
  with replaceFrom_persist[OF m(2,3) n(2,3) ne, of r "[]" a b] m(1) n(1)
  show ?thesis unfolding includes'_iff replaceAll_def by simp
qed

lemma camera_as_steps:
  "replaceCameraTokens fts s exifData ws = applySteps (cameraSteps fts exifData) (s, ws)"
  by (simp add: replaceCameraTokens_def applySteps_def cameraSteps_def replaceMake_def
      replaceModel_def replaceLens_def replaceIso_def replaceAperture_def replaceShutter_def
      replaceFocal_def)

lemma replaceOrWarn_persist:
  assumes "isToken S" and "isToken T" and "S \<noteq> T" and "includes' (fst st) T"
  shows "includes' (fst (replaceOrWarn S val w st)) T"
  using assms replaceAll_persist[OF assms(1,2,3,4)]
  by (cases val) (simp_all add: replaceOrWarn_def)

lemma replaceOrWarn_count_other:
  "W \<noteq> w \<Longrightarrow> count_list (snd (replaceOrWarn tok val w st)) W = count_list (snd st) W"
  by (cases val) (simp_all add: replaceOrWarn_def)

lemma replaceOrWarn_count_hit:
  "includes' (fst st) tok \<Longrightarrow>
   count_list (snd (replaceOrWarn tok None w st)) w = count_list (snd st) w + 1"
  by (simp add: replaceOrWarn_def)

lemma applySteps_Cons:
  "applySteps (x # tbl) st = applySteps tbl (replaceOrWarn (fst x) (fst (snd x)) (snd (snd x)) st)"
  by (simp add: applySteps_def)

lemma applySteps_miss:
  "W \<notin> set (map (\<lambda>x. snd (snd x)) tbl) \<Longrightarrow>
   count_list (snd (applySteps tbl st)) W = count_list (snd st) W"
proof (induction tbl arbitrary: st)
  case Nil
  show ?case by (simp add: applySteps_def)
next
  case (Cons x tbl)
  then have "W \<noteq> snd (snd x)" and "W \<notin> set (map (\<lambda>x. snd (snd x)) tbl)" by auto
  with Cons.IH show ?case by (simp add: applySteps_Cons replaceOrWarn_count_other)
qed

lemma applySteps_hit:
  assumes "\<forall>x \<in> set tbl. isToken (fst x)"
    and "distinct (map fst tbl)"
    and "distinct (map (\<lambda>x. snd (snd x)) tbl)"
    and "(tok, None, W) \<in> set tbl"
    and "includes' (fst st) tok"
  shows "count_list (snd (applySteps tbl st)) W = count_list (snd st) W + 1"
  using assms
proof (induction tbl arbitrary: st)
  case Nil
  then show ?case by simp
next
  case (Cons x tbl)
  show ?case
  proof (cases "x = (tok, None, W)")
    case True
    from Cons.prems(3) True have "W \<notin> set (map (\<lambda>x. snd (snd x)) tbl)" by simp
    from applySteps_miss[OF this] True Cons.prems(5) show ?thesis
      by (simp add: applySteps_Cons replaceOrWarn_count_hit)
  next
    case False
    with Cons.prems(4) have mem: "(tok, None, W) \<in> set tbl" by simp
    have a: "tok \<in> set (map fst tbl)" using mem by force
    have b: "W \<in> set (map (\<lambda>x. snd (snd x)) tbl)" using mem by force
    from Cons.prems(2) have "fst x \<notin> set (map fst tbl)" by simp
    with a have ne1: "fst x \<noteq> tok" by blast
    from Cons.prems(3) have "snd (snd x) \<notin> set (map (\<lambda>x. snd (snd x)) tbl)" by simp
    with b have ne2: "W \<noteq> snd (snd x)" by blast
    note ne = ne1 ne2
    from Cons.prems(1) mem have tk: "isToken (fst x)" "isToken tok" by auto
    have inc: "includes' (fst (replaceOrWarn (fst x) (fst (snd x)) (snd (snd x)) st)) tok"
      using tk ne(1) Cons.prems(5) by (intro replaceOrWarn_persist)
    from Cons.prems have "\<forall>x \<in> set tbl. isToken (fst x)" "distinct (map fst tbl)"
      "distinct (map (\<lambda>x. snd (snd x)) tbl)" by simp_all
    from Cons.IH[OF this mem inc] ne(2) show ?thesis
      by (simp add: applySteps_Cons replaceOrWarn_count_other)
  qed
qed

lemma cameraSteps_wellformed:
  "(\<forall>x \<in> set (cameraSteps fts exifData). isToken (fst x))
   \<and> distinct (map fst (cameraSteps fts exifData))
   \<and> distinct (map (\<lambda>x. snd (snd x)) (cameraSteps fts exifData))"
  by (simp add: cameraSteps_def isToken_def)

lemma date_persist:
  assumes "isToken T"
    and "T \<notin> set [''{YYYY}'', ''{YY}'', ''{MM}'', ''{DD}'', ''{HH}'', ''{mm}'', ''{ss}'',
                   ''{date}'', ''{datetime}'', ''{timestamp}'']"
    and "includes' s T"
  shows "includes' (replaceDateTokens s date) T"
  unfolding replaceDateTokens_def Let_def
  using assms by (intro replaceAll_persist) (auto simp: isToken_def)

lemma replaceOrientation_warnings: "snd (replaceOrientation fts exifData st) = snd st"
  by (simp add: replaceOrientation_def)

lemma image_count:
  assumes "W \<notin> set [''Image width not available'', ''Image height not available'',
                        ''Image dimensions not available'']"
  shows "count_list (snd (replaceImageTokens fts s exifData ws)) W = count_list ws W"
  using assms
  by (simp add: replaceImageTokens_def replaceWidth_def replaceHeight_def replaceDimensions_def
      replaceOrientation_warnings replaceOrWarn_count_other Let_def)

lemma gps_count:
  assumes "W \<notin> set [''GPS latitude not available'', ''GPS longitude not available'',
                        ''GPS coordinates not available'']"
  shows "count_list (snd (replaceGPSTokens fts s exifData ws)) W = count_list ws W"
  using assms
  by (simp add: replaceGPSTokens_def replaceLat_def replaceLng_def replaceGps_def
      replaceOrWarn_count_other)


lemma generateFilename_camera_warning:
  assumes mem: "(T, None, W) \<in> set (cameraSteps fts exifData)"
    and inc: "includes' template T"
  shows "count_list (warningList (generateFilename fts now template exifData f opts)) W = 1"
proof -
  define fallback where "fallback = (case fallbackDate opts of None \<Rightarrow> now | Some d \<Rightarrow> d)"
  define date where "date = (case exifData of
                    None \<Rightarrow> fallback
                  | Some e \<Rightarrow> (case dateTaken e of None \<Rightarrow> fallback | Some d \<Rightarrow> d))"
  define st1 where "st1 = replaceCameraTokens fts (replaceDateTokens template date) exifData []"
  define st2 where "st2 = replaceImageTokens fts (fst st1) exifData (snd st1)"
  define st3 where "st3 = replaceGPSTokens fts (fst st2) exifData (snd st2)"
  define u where "u = matchAllTokens
       (replaceAll
          (replaceAll
             (replaceAll
                (replaceCounterTokens (fst st3)
                   (case counter opts of None \<Rightarrow> 1 | Some c \<Rightarrow> c)
                   (case counterPadding opts of None \<Rightarrow> 3 | Some p \<Rightarrow> p))
                ''{original}'' (fst (parseFilename f)))
             ''{ext}'' (snd (parseFilename f)))
          ''{custom}'' (case customText opts of None \<Rightarrow> [] | Some t \<Rightarrow> t))"
  have wl: "warningList (generateFilename fts now template exifData f opts)
          = (if u \<noteq> [] then snd st3 @ [''Unresolved tokens: '' @ joinWith '', '' u] else snd st3)"
    unfolding generateFilename_def Let_def warningList_def u_def st3_def st2_def st1_def date_def
      fallback_def
    by simp
  from mem have tok: "isToken T"
    and nd: "T \<notin> set [''{YYYY}'', ''{YY}'', ''{MM}'', ''{DD}'', ''{HH}'', ''{mm}'', ''{ss}'',
                   ''{date}'', ''{datetime}'', ''{timestamp}'']"
    by (auto simp: cameraSteps_def isToken_def)
  from mem have wi: "W \<notin> set [''Image width not available'', ''Image height not available'',
                        ''Image dimensions not available'']"
    and wg: "W \<notin> set [''GPS latitude not available'', ''GPS longitude not available'',
                        ''GPS coordinates not available'']"
    and wu: "W \<noteq> ''Unresolved tokens: '' @ joinWith '', '' u"
    by (auto simp: cameraSteps_def)
  have "includes' (fst (replaceDateTokens template date, [])) T"
    using date_persist[OF tok nd inc] by simp
  with cameraSteps_wellformed[of fts exifData] mem
  have "count_list (snd (applySteps (cameraSteps fts exifData) (replaceDateTokens template date, []))) W
          = count_list (snd (replaceDateTokens template date, [] :: string list)) W + 1"
    by (intro applySteps_hit) blast+
  then have c1: "count_list (snd st1) W = 1"
    by (simp add: st1_def camera_as_steps)
  have c2: "count_list (snd st2) W = 1"
    unfolding st2_def using image_count[OF wi] c1 by simp
  have c3: "count_list (snd st3) W = 1"
    unfolding st3_def using gps_count[OF wg] c2 by simp
  show ?thesis unfolding wl using c3 wu by simp
qed

lemma absent_value:
  "absent field exifData \<Longrightarrow> truthyText field exifData = None"
  "absent nfield exifData \<Longrightarrow> truthyNum nfield exifData = None"
  "absent exposureTime exifData \<Longrightarrow> shutterValue fts exifData = None"
  by (auto simp: absent_def truthyText_def truthyNum_def shutterValue_def split: option.splits)

lemma replaceOrWarn_warnings:
  "set (snd (replaceOrWarn tok val w st)) \<subseteq> insert w (set (snd st))"
  by (cases val) (auto simp: replaceOrWarn_def)

lemma image_warnings:
  "set (snd (replaceImageTokens fts s exifData ws))
     \<subseteq> set ws \<union> {''Image width not available'', ''Image height not available'',
                    ''Image dimensions not available''}"
proof -
  define a where "a = replaceWidth fts exifData (s, ws)"
  define b where "b = replaceHeight fts exifData a"
  define c where "c = replaceDimensions fts exifData b"
  have "set (snd a) \<subseteq> insert ''Image width not available'' (set ws)"
    unfolding a_def replaceWidth_def using replaceOrWarn_warnings[of _ _ _ "(s, ws)"] by simp
  moreover have "set (snd b) \<subseteq> insert ''Image height not available'' (set (snd a))"
    unfolding b_def replaceHeight_def by (rule replaceOrWarn_warnings)
  moreover have "set (snd c) \<subseteq> insert ''Image dimensions not available'' (set (snd b))"
    unfolding c_def replaceDimensions_def by (rule replaceOrWarn_warnings)
  moreover have "snd (replaceImageTokens fts s exifData ws) = snd c"
    by (simp add: replaceImageTokens_def replaceOrientation_warnings a_def b_def c_def)
  ultimately show ?thesis by auto
qed

text \<open>
  C3. For each of the tokens \<open>{make}\<close>, \<open>{model}\<close>, \<open>{lens}\<close>, \<open>{iso}\<close>, \<open>{aperture}\<close>,
  \<open>{shutter}\<close> and \<open>{focal}\<close>: when the metadata record is absent or the field of the token
  is null, the block of the token replaces every occurrence in the current string by the
  empty string and pushes the warning of the field; and when the template includes the
  token, the warnings that \<open>generateFilename\<close> returns hold that warning exactly once. The
  block of \<open>{orientation}\<close> puts \<open>1\<close> at every occurrence when the record is absent and
  never changes the warnings: \<open>replaceImageTokens\<close> adds none but those of width, height and
  dimensions.
\<close>

theorem missing_camera_field:
  "(absent make' exifData \<and> includes' s ''{make}'' \<longrightarrow>
        replaceMake exifData (s, ws) = (replaceAll s ''{make}'' [], ws @ [''Camera make not available in EXIF data'']))
   \<and> (absent model exifData \<and> includes' s ''{model}'' \<longrightarrow>
        replaceModel exifData (s, ws) = (replaceAll s ''{model}'' [], ws @ [''Camera model not available in EXIF data'']))
   \<and> (absent lensModel exifData \<and> includes' s ''{lens}'' \<longrightarrow>
        replaceLens exifData (s, ws) = (replaceAll s ''{lens}'' [], ws @ [''Lens model not available in EXIF data'']))
   \<and> (absent iso exifData \<and> includes' s ''{iso}'' \<longrightarrow>
        replaceIso fts exifData (s, ws) = (replaceAll s ''{iso}'' [], ws @ [''ISO not available in EXIF data'']))
   \<and> (absent fNumber exifData \<and> includes' s ''{aperture}'' \<longrightarrow>
        replaceAperture fts exifData (s, ws) = (replaceAll s ''{aperture}'' [], ws @ [''Aperture not available in EXIF data'']))
   \<and> (absent exposureTime exifData \<and> includes' s ''{shutter}'' \<longrightarrow>
        replaceShutter fts exifData (s, ws) = (replaceAll s ''{shutter}'' [], ws @ [''Shutter speed not available in EXIF data'']))
   \<and> (absent focalLength exifData \<and> includes' s ''{focal}'' \<longrightarrow>
        replaceFocal fts exifData (s, ws) = (replaceAll s ''{focal}'' [], ws @ [''Focal length not available in EXIF data'']))
   \<and> (absent make' exifData \<and> includes' template ''{make}'' \<longrightarrow>
        count_list (warningList (generateFilename fts now template exifData f opts))
          ''Camera make not available in EXIF data'' = 1)
   \<and> (absent model exifData \<and> includes' template ''{model}'' \<longrightarrow>
        count_list (warningList (generateFilename fts now template exifData f opts))
          ''Camera model not available in EXIF data'' = 1)
   \<and> (absent lensModel exifData \<and> includes' template ''{lens}'' \<longrightarrow>
        count_list (warningList (generateFilename fts now template exifData f opts))
          ''Lens model not available in EXIF data'' = 1)
   \<and> (absent iso exifData \<and> includes' template ''{iso}'' \<longrightarrow>
        count_list (warningList (generateFilename fts now template exifData f opts))
          ''ISO not available in EXIF data'' = 1)
   \<and> (absent fNumber exifData \<and> includes' template ''{aperture}'' \<longrightarrow>
        count_list (warningList (generateFilename fts now template exifData f opts))
          ''Aperture not available in EXIF data'' = 1)
   \<and> (absent exposureTime exifData \<and> includes' template ''{shutter}'' \<longrightarrow>
        count_list (warningList (generateFilename fts now template exifData f opts))
          ''Shutter speed not available in EXIF data'' = 1)
   \<and> (absent focalLength exifData \<and> includes' template ''{focal}'' \<longrightarrow>
        count_list (warningList (generateFilename fts now template exifData f opts))
          ''Focal length not available in EXIF data'' = 1)
   \<and> (includes' s ''{orientation}'' \<longrightarrow>
        replaceOrientation fts None (s, ws) = (replaceAll s ''{orientation}'' ''1'', ws))
   \<and> snd (replaceOrientation fts exifData (s, ws)) = ws
   \<and> set (snd (replaceImageTokens fts s exifData ws))
        \<subseteq> set ws \<union> {''Image width not available'', ''Image height not available'',
                       ''Image dimensions not available''}"
proof -
  have s0: "(absent make' exifData \<and> includes' s ''{make}'' \<longrightarrow>
        replaceMake exifData (s, ws) = (replaceAll s ''{make}'' [], ws @ [''Camera make not available in EXIF data'']))"
    by (simp add: replaceMake_def absent_value replaceOrWarn_None)
  have c0: "(absent make' exifData \<and> includes' template ''{make}'' \<longrightarrow>
        count_list (warningList (generateFilename fts now template exifData f opts))
          ''Camera make not available in EXIF data'' = 1)"
    using generateFilename_camera_warning[of "''{make}''" "''Camera make not available in EXIF data''" fts exifData template now f opts]
    by (simp add: cameraSteps_def absent_value)
  have s1: "(absent model exifData \<and> includes' s ''{model}'' \<longrightarrow>
        replaceModel exifData (s, ws) = (replaceAll s ''{model}'' [], ws @ [''Camera model not available in EXIF data'']))"
    by (simp add: replaceModel_def absent_value replaceOrWarn_None)
  have c1: "(absent model exifData \<and> includes' template ''{model}'' \<longrightarrow>
        count_list (warningList (generateFilename fts now template exifData f opts))
          ''Camera model not available in EXIF data'' = 1)"
    using generateFilename_camera_warning[of "''{model}''" "''Camera model not available in EXIF data''" fts exifData template now f opts]
    by (simp add: cameraSteps_def absent_value)
  have s2: "(absent lensModel exifData \<and> includes' s ''{lens}'' \<longrightarrow>
        replaceLens exifData (s, ws) = (replaceAll s ''{lens}'' [], ws @ [''Lens model not available in EXIF data'']))"
    by (simp add: replaceLens_def absent_value replaceOrWarn_None)
  have c2: "(absent lensModel exifData \<and> includes' template ''{lens}'' \<longrightarrow>
        count_list (warningList (generateFilename fts now template exifData f opts))
          ''Lens model not available in EXIF data'' = 1)"
    using generateFilename_camera_warning[of "''{lens}''" "''Lens model not available in EXIF data''" fts exifData template now f opts]
    by (simp add: cameraSteps_def absent_value)
  have s3: "(absent iso exifData \<and> includes' s ''{iso}'' \<longrightarrow>
        replaceIso fts exifData (s, ws) = (replaceAll s ''{iso}'' [], ws @ [''ISO not available in EXIF data'']))"
    by (simp add: replaceIso_def absent_value replaceOrWarn_None)
  have c3: "(absent iso exifData \<and> includes' template ''{iso}'' \<longrightarrow>
        count_list (warningList (generateFilename fts now template exifData f opts))
          ''ISO not available in EXIF data'' = 1)"
    using generateFilename_camera_warning[of "''{iso}''" "''ISO not available in EXIF data''" fts exifData template now f opts]
    by (simp add: cameraSteps_def absent_value)
  have s4: "(absent fNumber exifData \<and> includes' s ''{aperture}'' \<longrightarrow>
        replaceAperture fts exifData (s, ws) = (replaceAll s ''{aperture}'' [], ws @ [''Aperture not available in EXIF data'']))"
    by (simp add: replaceAperture_def absent_value replaceOrWarn_None)
  have c4: "(absent fNumber exifData \<and> includes' template ''{aperture}'' \<longrightarrow>
        count_list (warningList (generateFilename fts now template exifData f opts))
          ''Aperture not available in EXIF data'' = 1)"
    using generateFilename_camera_warning[of "''{aperture}''" "''Aperture not available in EXIF data''" fts exifData template now f opts]
    by (simp add: cameraSteps_def absent_value)
  have s5: "(absent exposureTime exifData \<and> includes' s ''{shutter}'' \<longrightarrow>
        replaceShutter fts exifData (s, ws) = (replaceAll s ''{shutter}'' [], ws @ [''Shutter speed not available in EXIF data'']))"
    by (simp add: replaceShutter_def absent_value replaceOrWarn_None)
  have c5: "(absent exposureTime exifData \<and> includes' template ''{shutter}'' \<longrightarrow>
        count_list (warningList (generateFilename fts now template exifData f opts))
          ''Shutter speed not available in EXIF data'' = 1)"
    using generateFilename_camera_warning[of "''{shutter}''" "''Shutter speed not available in EXIF data''" fts exifData template now f opts]
    by (simp add: cameraSteps_def absent_value)
  have s6: "(absent focalLength exifData \<and> includes' s ''{focal}'' \<longrightarrow>
        replaceFocal fts exifData (s, ws) = (replaceAll s ''{focal}'' [], ws @ [''Focal length not available in EXIF data'']))"
    by (simp add: replaceFocal_def absent_value replaceOrWarn_None)
  have c6: "(absent focalLength exifData \<and> includes' template ''{focal}'' \<longrightarrow>
        count_list (warningList (generateFilename fts now template exifData f opts))
          ''Focal length not available in EXIF data'' = 1)"
    using generateFilename_camera_warning[of "''{focal}''" "''Focal length not available in EXIF data''" fts exifData template now f opts]
    by (simp add: cameraSteps_def absent_value)
  have o1: "(includes' s ''{orientation}'' \<longrightarrow>
        replaceOrientation fts None (s, ws) = (replaceAll s ''{orientation}'' ''1'', ws))"
    by (simp add: replaceOrientation_def orientationValue_def)
  have o2: "snd (replaceOrientation fts exifData (s, ws)) = ws"
    by (simp add: replaceOrientation_warnings)
  note o3 = image_warnings[of fts s exifData ws]
  show ?thesis
    by (intro conjI s0 s1 s2 s3 s4 s5 s6 c0 c1 c2 c3 c4 c5 c6 o1 o2 o3)
qed

theorem missing_camera_field_witness:
  "absent make' None
   \<and> absent model None
   \<and> absent lensModel None
   \<and> absent iso None
   \<and> absent fNumber None
   \<and> absent exposureTime None
   \<and> absent focalLength None
   \<and> includes' ''{make}{model}{lens}{iso}{aperture}{shutter}{focal}{orientation}'' ''{make}''
   \<and> includes' ''{make}{model}{lens}{iso}{aperture}{shutter}{focal}{orientation}'' ''{model}''
   \<and> includes' ''{make}{model}{lens}{iso}{aperture}{shutter}{focal}{orientation}'' ''{lens}''
   \<and> includes' ''{make}{model}{lens}{iso}{aperture}{shutter}{focal}{orientation}'' ''{iso}''
   \<and> includes' ''{make}{model}{lens}{iso}{aperture}{shutter}{focal}{orientation}'' ''{aperture}''
   \<and> includes' ''{make}{model}{lens}{iso}{aperture}{shutter}{focal}{orientation}'' ''{shutter}''
   \<and> includes' ''{make}{model}{lens}{iso}{aperture}{shutter}{focal}{orientation}'' ''{focal}''
   \<and> includes' ''{make}{model}{lens}{iso}{aperture}{shutter}{focal}{orientation}'' ''{orientation}''
   \<and> replaceMake None (''{make}{model}{lens}{iso}{aperture}{shutter}{focal}{orientation}'', [])
       = (''{model}{lens}{iso}{aperture}{shutter}{focal}{orientation}'',
          [''Camera make not available in EXIF data''])
   \<and> count_list (warningList (generateFilename integralPart None ''{make}{model}{lens}{iso}{aperture}{shutter}{focal}{orientation}'' None ''a.jpg'' noOptions))
         ''Shutter speed not available in EXIF data'' = 1
   \<and> generateFilename integralPart None ''{make}{model}{lens}{iso}{aperture}{shutter}{focal}{orientation}'' None ''a.jpg'' noOptions
       = \<lparr>filename = ''1.jpg'', success = True,
          warnings = Some [''Camera make not available in EXIF data'',
                           ''Camera model not available in EXIF data'',
                           ''Lens model not available in EXIF data'',
                           ''ISO not available in EXIF data'',
                           ''Aperture not available in EXIF data'',
                           ''Shutter speed not available in EXIF data'',
                           ''Focal length not available in EXIF data'']\<rparr>"
proof -
  have r: "replaceAll ''{make}{model}{lens}{iso}{aperture}{shutter}{focal}{orientation}'' ''{make}'' []
             = ''{model}{lens}{iso}{aperture}{shutter}{focal}{orientation}''"
    by (simp add: replaceAll_def replaceFrom.simps(2))
  have g: "generateFilename integralPart None ''{make}{model}{lens}{iso}{aperture}{shutter}{focal}{orientation}'' None ''a.jpg'' noOptions
       = \<lparr>filename = ''1.jpg'', success = True,
          warnings = Some [''Camera make not available in EXIF data'',
                           ''Camera model not available in EXIF data'',
                           ''Lens model not available in EXIF data'',
                           ''ISO not available in EXIF data'',
                           ''Aperture not available in EXIF data'',
                           ''Shutter speed not available in EXIF data'',
                           ''Focal length not available in EXIF data'']\<rparr>"
    by code_simp
  have a: "absent field None" for field :: "ExifData \<Rightarrow> 'a option"
    by (simp add: absent_def)
  from missing_camera_field[where exifData = None and s = "''{make}{model}{lens}{iso}{aperture}{shutter}{focal}{orientation}''" and ws = "[]"
      and fts = integralPart and template = "''{make}{model}{lens}{iso}{aperture}{shutter}{focal}{orientation}''" and now = None and f = "''a.jpg''"
      and opts = noOptions]
  show ?thesis using g by (simp add: a r)
qed

end
